theory Spec2Isabelle
  imports Main
begin

text \<open>
  A model of \<^verbatim>\<open>mac_changer.py\<close>, a command-line tool that reads, changes, rotates and
  restores the hardware address of a network interface by running \<^verbatim>\<open>ip\<close> or
  \<^verbatim>\<open>ifconfig\<close>. Every function of the program is a function of the model with the
  same name. What the program gets from outside (the results of shell commands, random
  numbers, the clock, the keyboard, the file system) is a parameter \<open>E\<close>; what it does
  to the outside (commands run, lines printed, the backup file) is a state \<open>w\<close> that
  each function takes and returns. An exception is a value \<open>Inl e\<close>; a loop that nothing
  bounds is a partial function with the value \<open>None\<close> when it never ends. The source is
  quoted before each definition; the symbols outside ASCII in its messages are written
  \<^verbatim>\<open>[ok]\<close>, \<^verbatim>\<open>[x]\<close> or left out.
\<close>

section \<open>Text: the string operations of Python that mac\_changer.py uses\<close>

text \<open>
  Python text is modelled as \<^typ>\<open>string\<close>. The characters that matter to the program
  (hexadecimal digits, the colon, ASCII letters, white space) are ASCII; a character
  outside ASCII is left alone by \<open>py_upper\<close> and \<open>py_lower\<close> and belongs to no
  character class below. No character outside ASCII upper-cases to a character of a key
  of the vendor table, so the table lookup does not depend on this.
\<close>

definition upper_char :: "char \<Rightarrow> char" where
  "upper_char c =
     (case map_of (zip ''abcdefghijklmnopqrstuvwxyz'' ''ABCDEFGHIJKLMNOPQRSTUVWXYZ'') c of
        Some u \<Rightarrow> u
      | None \<Rightarrow> c)"

definition lower_char :: "char \<Rightarrow> char" where
  "lower_char c =
     (case map_of (zip ''ABCDEFGHIJKLMNOPQRSTUVWXYZ'' ''abcdefghijklmnopqrstuvwxyz'') c of
        Some l \<Rightarrow> l
      | None \<Rightarrow> c)"

text \<open>\<^verbatim>\<open>s.upper()\<close> and \<^verbatim>\<open>s.lower()\<close>.\<close>

definition py_upper :: "string \<Rightarrow> string" where
  "py_upper s = map upper_char s"

definition py_lower :: "string \<Rightarrow> string" where
  "py_lower s = map lower_char s"

text \<open>
  Equality of two strings without regard to the case of their letters, in the
  specification's words and not by way of the program's \<^verbatim>\<open>lower()\<close>: the strings
  have the same length, and at each position the two characters are the same or are
  the small and the capital form of one letter.
\<close>

definition same_letter :: "char \<Rightarrow> char \<Rightarrow> bool" where
  "same_letter x y \<longleftrightarrow>
     x = y \<or>
     (x, y) \<in> set (zip ''abcdefghijklmnopqrstuvwxyz'' ''ABCDEFGHIJKLMNOPQRSTUVWXYZ'') \<or>
     (y, x) \<in> set (zip ''abcdefghijklmnopqrstuvwxyz'' ''ABCDEFGHIJKLMNOPQRSTUVWXYZ'')"

definition same_ignoring_case :: "string \<Rightarrow> string \<Rightarrow> bool" where
  "same_ignoring_case a b \<longleftrightarrow> list_all2 same_letter a b"

text \<open>
  \<^verbatim>\<open>s.split(":")\<close>: the pieces between the separators, in order; a string without
  the separator (the empty string too) gives one piece. \<open>cur\<close> is the piece being read,
  reversed.
\<close>

fun split_from :: "char \<Rightarrow> string \<Rightarrow> string \<Rightarrow> string list" where
  "split_from sep cur [] = [rev cur]"
| "split_from sep cur (c # cs) =
     (if c = sep then rev cur # split_from sep [] cs else split_from sep (c # cur) cs)"

definition py_split :: "char \<Rightarrow> string \<Rightarrow> string list" where
  "py_split sep s = split_from sep [] s"

text \<open>\<^verbatim>\<open>sep.join(parts)\<close>.\<close>

fun py_join :: "string \<Rightarrow> string list \<Rightarrow> string" where
  "py_join sep [] = []"
| "py_join sep [p] = p"
| "py_join sep (p # q # ps) = p @ sep @ py_join sep (q # ps)"

text \<open>
  \<^verbatim>\<open>f"{n:02x}"\<close> for a number \<open>n \<ge> 0\<close>: its lower-case hexadecimal digits, padded
  with zeros on the left to a width of two.
\<close>

definition hex_digit :: "nat \<Rightarrow> char" where
  "hex_digit d = ''0123456789abcdef'' ! d"

fun to_hex :: "nat \<Rightarrow> string" where
  "to_hex n = (if n < 16 then [hex_digit n] else to_hex (n div 16) @ [hex_digit (n mod 16)])"

definition format_02x :: "nat \<Rightarrow> string" where
  "format_02x n = (let h = to_hex n in replicate (2 - length h) (CHR ''0'') @ h)"

section \<open>Constants\<close>

text \<open>
  \<^verbatim>\<open>VENDOR_PREFIXES\<close>: a dict literal, kept in its insertion order (the order of
  \<^verbatim>\<open>list(VENDOR_PREFIXES.keys())\<close>).
\<close>

definition VENDOR_PREFIXES :: "(string \<times> string) list" where
  "VENDOR_PREFIXES =
     [(''00:14:22'', ''Dell''), (''00:40:96'', ''Cisco''), (''AC:DE:48'', ''Private'')]"

section \<open>Vendor lookup and address generation\<close>

text \<open>
  \<^verbatim>\<open>
  def get_vendor(mac):
      prefix = ":".join(mac.upper().split(":")[:3])
      return VENDOR_PREFIXES.get(prefix, "Unknown")
  \<close>
\<close>

definition get_vendor :: "string \<Rightarrow> string" where
  "get_vendor mac =
     (let prefix = py_join '':'' (take 3 (py_split (CHR '':'') (py_upper mac)))
      in case map_of VENDOR_PREFIXES prefix of Some v \<Rightarrow> v | None \<Rightarrow> ''Unknown'')"

text \<open>
  The random numbers one call of \<^verbatim>\<open>random_mac\<close> draws, in the order it draws them:
  the index \<^verbatim>\<open>choice\<close> picks in the list of keys, then the three results of
  \<^verbatim>\<open>randint(0, 255)\<close>. Python's \<^verbatim>\<open>choice\<close> picks an index below the length of
  the list and \<^verbatim>\<open>randint(0, 255)\<close> a number from 0 to 255: \<open>draw_ok\<close>.
\<close>

record draw =
  pick :: nat
  octet1 :: nat
  octet2 :: nat
  octet3 :: nat

definition draw_ok :: "draw \<Rightarrow> bool" where
  "draw_ok d \<longleftrightarrow>
     pick d < length VENDOR_PREFIXES \<and> octet1 d \<le> 255 \<and> octet2 d \<le> 255 \<and> octet3 d \<le> 255"

text \<open>
  \<^verbatim>\<open>
  def random_mac():
      prefix = choice(list(VENDOR_PREFIXES.keys())).split(":")
      suffix = [f"{randint(0, 255):02x}" for _ in range(3)]
      return ":".join(prefix + suffix)
  \<close>
\<close>

definition random_mac :: "draw \<Rightarrow> string" where
  "random_mac d =
     (let prefix = py_split (CHR '':'') (map fst VENDOR_PREFIXES ! pick d);
          suffix = map format_02x [octet1 d, octet2 d, octet3 d]
      in py_join '':'' (prefix @ suffix))"

section \<open>Patterns\<close>

text \<open>
  The character classes of the regular expressions: \<^verbatim>\<open>[0-9A-Fa-f]\<close>, \<^verbatim>\<open>\d\<close>,
  \<^verbatim>\<open>\w\<close>, \<^verbatim>\<open>\s\<close> (in ASCII: tab, newline, vertical tab, form feed, carriage
  return, the four separators 28 to 31, and the space) and \<^verbatim>\<open>[\da-fA-F:]\<close>.
\<close>

definition is_hex :: "char \<Rightarrow> bool" where
  "is_hex c \<longleftrightarrow> c \<in> set ''0123456789ABCDEFabcdef''"

definition is_digit :: "char \<Rightarrow> bool" where
  "is_digit c \<longleftrightarrow> c \<in> set ''0123456789''"

definition is_word :: "char \<Rightarrow> bool" where
  "is_word c \<longleftrightarrow>
     c \<in> set ''abcdefghijklmnopqrstuvwxyzABCDEFGHIJKLMNOPQRSTUVWXYZ0123456789_''"

definition is_space :: "char \<Rightarrow> bool" where
  "is_space c \<longleftrightarrow> (let n = (of_char c :: nat) in (9 \<le> n \<and> n \<le> 13) \<or> (28 \<le> n \<and> n \<le> 32))"

definition is_ether_char :: "char \<Rightarrow> bool" where
  "is_ether_char c \<longleftrightarrow> is_digit c \<or> c \<in> set ''abcdefABCDEF:''"

definition newline :: char where
  "newline = CHR 0x0A"

text \<open>
  \<^verbatim>\<open>re.match(r"^([0-9A-Fa-f]{2}:){5}[0-9A-Fa-f]{2}$", s)\<close>, the check of
  \<^verbatim>\<open>cli\<close> on \<^verbatim>\<open>args.mac\<close>. \<open>hex_groups n s\<close> reads \<open>n\<close> times two
  hexadecimal digits and a colon at the start of \<open>s\<close> and gives the rest.
  \<open>at_dollar\<close> is Python's \<^verbatim>\<open>$\<close> (without \<^verbatim>\<open>re.MULTILINE\<close>): it matches at
  the end of the string, and also just before a newline that is the last character.
\<close>

fun hex_groups :: "nat \<Rightarrow> string \<Rightarrow> string option" where
  "hex_groups 0 s = Some s"
| "hex_groups (Suc n) (a # b # c # s) =
     (if is_hex a \<and> is_hex b \<and> c = CHR '':'' then hex_groups n s else None)"
| "hex_groups (Suc n) s = None"

definition at_dollar :: "string \<Rightarrow> bool" where
  "at_dollar s \<longleftrightarrow> s = [] \<or> s = [newline]"

definition mac_format_ok :: "string \<Rightarrow> bool" where
  "mac_format_ok s =
     (case hex_groups 5 s of
        None \<Rightarrow> False
      | Some r \<Rightarrow> (case r of a # b # t \<Rightarrow> is_hex a \<and> is_hex b \<and> at_dollar t | _ \<Rightarrow> False))"

text \<open>
  The format in the specification's words: exactly six pairs of hexadecimal digits,
  joined by colons.
\<close>

abbreviation hex_pair :: "string \<Rightarrow> bool" where
  "hex_pair p \<equiv> length p = 2 \<and> list_all is_hex p"

definition six_hex_pairs :: "string \<Rightarrow> bool" where
  "six_hex_pairs s =
     (let parts = py_split (CHR '':'') s
      in length parts = 6 \<and> list_all hex_pair parts)"

text \<open>
  \<^verbatim>\<open>re.search(r"ether\s+([\da-fA-F:]{17})", output)\<close>, group 1 of the leftmost match.
  \<open>ether_at s\<close> is the match that starts at the head of \<open>s\<close>: the white space is read
  greedily, and giving some of it back never helps, since no white space is in the
  class that follows.
\<close>

definition ether_at :: "string \<Rightarrow> string option" where
  "ether_at s =
     (let r = drop 5 s; m = take 17 (dropWhile is_space r)
      in if take 5 s = ''ether'' \<and> takeWhile is_space r \<noteq> [] \<and> length m = 17 \<and>
            list_all is_ether_char m
         then Some m else None)"

fun search_ether :: "string \<Rightarrow> string option" where
  "search_ether [] = None"
| "search_ether (c # cs) =
     (case ether_at (c # cs) of Some m \<Rightarrow> Some m | None \<Rightarrow> search_ether cs)"

text \<open>
  \<^verbatim>\<open>re.search(r"(\w\w:\w\w:\w\w:\w\w:\w\w:\w\w)", output)\<close>, group 1 of the leftmost
  match.
\<close>

fun word_pairs :: "nat \<Rightarrow> string \<Rightarrow> bool" where
  "word_pairs 0 s = (case s of [a, b] \<Rightarrow> is_word a \<and> is_word b | _ \<Rightarrow> False)"
| "word_pairs (Suc n) (a # b # c # s) =
     (is_word a \<and> is_word b \<and> c = CHR '':'' \<and> word_pairs n s)"
| "word_pairs (Suc n) s = False"

fun search_pairs :: "string \<Rightarrow> string option" where
  "search_pairs [] = None"
| "search_pairs (c # cs) =
     (if word_pairs 5 (take 17 (c # cs)) then Some (take 17 (c # cs)) else search_pairs cs)"

text \<open>
  \<^verbatim>\<open>re.findall(r'\d+: (\w+):', output)\<close>: the names of the matches, left to right,
  each search starting where the match before it ended. \<open>link_at s\<close> is the match that
  starts at the head of \<open>s\<close>, as its name and the number of characters it spans.
  \<open>skip\<close> counts the characters of the last match still to pass.
\<close>

definition link_at :: "string \<Rightarrow> (string \<times> nat) option" where
  "link_at s =
     (let ds = takeWhile is_digit s; r = dropWhile is_digit s;
          name = takeWhile is_word (drop 2 r); r' = dropWhile is_word (drop 2 r)
      in if ds \<noteq> [] \<and> take 2 r = '': '' \<and> name \<noteq> [] \<and> take 1 r' = '':''
         then Some (name, length ds + 2 + length name + 1) else None)"

fun findall_links :: "nat \<Rightarrow> string \<Rightarrow> string list" where
  "findall_links skip [] = []"
| "findall_links (Suc skip) (c # cs) = findall_links skip cs"
| "findall_links 0 (c # cs) =
     (case link_at (c # cs) of
        Some (name, n) \<Rightarrow> name # findall_links (n - 1) cs
      | None \<Rightarrow> findall_links 0 cs)"

text \<open>
  \<^verbatim>\<open>re.findall(r'^(\w+):', output, re.MULTILINE)\<close>: \<^verbatim>\<open>^\<close> matches at the start of
  the text and after every newline. \<open>bol\<close> says whether the head of the text starts a
  line.
\<close>

definition name_at :: "string \<Rightarrow> (string \<times> nat) option" where
  "name_at s =
     (let name = takeWhile is_word s
      in if name \<noteq> [] \<and> take 1 (dropWhile is_word s) = '':''
         then Some (name, length name + 1) else None)"

fun findall_names :: "bool \<Rightarrow> nat \<Rightarrow> string \<Rightarrow> string list" where
  "findall_names bol skip [] = []"
| "findall_names bol (Suc skip) (c # cs) = findall_names (c = newline) skip cs"
| "findall_names bol 0 (c # cs) =
     (case (if bol then name_at (c # cs) else None) of
        Some (name, n) \<Rightarrow> name # findall_names (c = newline) (n - 1) cs
      | None \<Rightarrow> findall_names (c = newline) 0 cs)"

section \<open>The world outside the program\<close>

text \<open>
  The exceptions that occur. \<^verbatim>\<open>KeyboardInterrupt\<close> is the only one of them that is
  not an \<^verbatim>\<open>Exception\<close>: \<^verbatim>\<open>except Exception\<close> lets it pass, a bare
  \<^verbatim>\<open>except:\<close> catches it.
\<close>

datatype py_error =
    OSError | FileNotFoundError | CalledProcessError | UnicodeDecodeError
  | JSONDecodeError | TypeError | KeyError | AttributeError | ValueError | OverflowError
  | EOFError | KeyboardInterrupt

definition is_Exception :: "py_error \<Rightarrow> bool" where
  "is_Exception e \<longleftrightarrow> e \<noteq> KeyboardInterrupt"

text \<open>
  What running a shell command does: it finishes with an exit status and its standard
  output, or the call raises (the shell cannot be spawned, the output cannot be decoded,
  the user interrupts the wait).
\<close>

datatype proc_result = Finished int string | Fails py_error

text \<open>
  A value that \<^verbatim>\<open>json.load\<close> returns. An object is a dict, kept as the list of its
  items in insertion order. A number is kept by its literal: the program never
  computes with one.
\<close>

datatype json =
    JNull | JBool bool | JNum string | JStr string | JArr "json list"
  | JObj "(string \<times> json) list"

text \<open>
  The backup file \<^verbatim>\<open>mac_backup.json\<close>: it does not exist, or \<^verbatim>\<open>open\<close> raises
  (an \<^verbatim>\<open>OSError\<close>: no permission, a directory), or it opens and its text is not
  JSON, or it holds the text of a JSON value. A file that holds a value is kept as the
  value \<^verbatim>\<open>json.load\<close> returns for it; \<^verbatim>\<open>json.dump\<close> writes a text that loads as
  the value dumped.
\<close>

datatype backup_file = Missing | Unreadable | Garbled | Holds json

text \<open>
  What the write of \<^verbatim>\<open>backup_mac\<close> does: it succeeds, or \<^verbatim>\<open>open(..., "w")\<close>
  raises an \<^verbatim>\<open>OSError\<close> and the file stays as it was, or \<^verbatim>\<open>json.dump\<close> raises
  one after \<^verbatim>\<open>open\<close> has truncated the file.
\<close>

datatype write_result = Written | Open_fails | Dump_fails

text \<open>The lines the program prints, by the place that prints them.\<close>

datatype message =
    Msg_default_random
  | Msg_invalid_mac
  | Msg_no_interfaces
  | Msg_select
  | Msg_option nat string
  | Msg_prompt
  | Msg_out_of_range
  | Msg_invalid_input
  | Msg_no_mac string
  | Msg_interface string
  | Msg_current string
  | Msg_backed_up
  | Msg_backup_failed py_error
  | Msg_restored string
  | Msg_no_backup
  | Msg_restore_failed py_error
  | Msg_rotating int string
  | Msg_rotated string
  | Msg_stopped
  | Msg_changed string string string
  | Msg_change_failed

text \<open>
  The environment of a run. \<open>shell n cmd\<close> is what the command \<open>cmd\<close> does when it is
  the command the program runs after \<open>n\<close> others; \<open>dice n\<close> are the numbers the
  call of \<^verbatim>\<open>random_mac\<close> after \<open>n\<close> others draws; \<open>nap n\<close> is what the call of
  \<^verbatim>\<open>time.sleep\<close> after \<open>n\<close> others raises, for an interval that is not negative
  (\<^verbatim>\<open>KeyboardInterrupt\<close> when the user stops the program there,
  \<^verbatim>\<open>OverflowError\<close> when the interval is too large for the clock); \<open>typed\<close> are the
  lines the user enters at the prompt, each as \<^verbatim>\<open>int\<close> reads it (\<open>None\<close> where
  \<^verbatim>\<open>int\<close> raises \<^verbatim>\<open>ValueError\<close>), after which the input ends; \<open>now\<close> is
  \<^verbatim>\<open>str(datetime.now())\<close>; \<open>writing\<close> is what writing the backup file does; and
  \<open>str_of v\<close> is Python's \<^verbatim>\<open>str(v)\<close> for a value that is not a string. The user's
  interrupt is modelled where the program waits: in a shell command and in
  \<^verbatim>\<open>time.sleep\<close>.
\<close>

record env =
  is_linux :: bool
  shell :: "nat \<Rightarrow> string \<Rightarrow> proc_result"
  dice :: "nat \<Rightarrow> draw"
  nap :: "nat \<Rightarrow> py_error option"
  typed :: "int option list"
  now :: string
  writing :: write_result
  str_of :: "json \<Rightarrow> string"

text \<open>
  The state of a run: the shell commands started so far and the lines printed so far
  (oldest first), the backup file, and how many times \<^verbatim>\<open>random_mac\<close> and
  \<^verbatim>\<open>time.sleep\<close> were called.
\<close>

record world =
  issued :: "string list"
  printed :: "message list"
  disk :: backup_file
  drawn :: nat
  naps :: nat

definition print :: "message \<Rightarrow> world \<Rightarrow> world" where
  "print m w = w\<lparr>printed := printed w @ [m]\<rparr>"

section \<open>Utilities\<close>

text \<open>
  \<^verbatim>\<open>
  def run_command(cmd):
      return subprocess.check_output(cmd, shell=True).decode()
  \<close>
  \<^verbatim>\<open>check_output\<close> raises \<^verbatim>\<open>CalledProcessError\<close> when the exit status is not zero.
\<close>

definition run_command :: "env \<Rightarrow> string \<Rightarrow> world \<Rightarrow> (py_error + string) \<times> world" where
  "run_command E cmd w =
     (case shell E (length (issued w)) cmd of
        Finished status out \<Rightarrow> if status = 0 then Inr out else Inl CalledProcessError
      | Fails e \<Rightarrow> Inl e,
      w\<lparr>issued := issued w @ [cmd]\<rparr>)"

text \<open>
  \<^verbatim>\<open>subprocess.call(cmd, shell=True)\<close>: it returns the exit status, whatever it is.
\<close>

definition subprocess_call :: "env \<Rightarrow> string \<Rightarrow> world \<Rightarrow> (py_error + int) \<times> world" where
  "subprocess_call E cmd w =
     (case shell E (length (issued w)) cmd of
        Finished status out \<Rightarrow> Inr status
      | Fails e \<Rightarrow> Inl e,
      w\<lparr>issued := issued w @ [cmd]\<rparr>)"

text \<open>
  \<^verbatim>\<open>
  def detect_interfaces():
      try:
          output = run_command("ip link" if IS_LINUX else "ifconfig")
          return re.findall(r'\d+: (\w+):', output) if IS_LINUX else re.findall(r'^(\w+):', output, re.MULTILINE)
      except:
          return []
  \<close>
\<close>

definition detect_interfaces :: "env \<Rightarrow> world \<Rightarrow> string list \<times> world" where
  "detect_interfaces E w =
     (case run_command E (if is_linux E then ''ip link'' else ''ifconfig'') w of
        (Inr output, w') \<Rightarrow>
          (if is_linux E then findall_links 0 output else findall_names True 0 output, w')
      | (Inl e, w') \<Rightarrow> ([], w'))"

text \<open>
  \<^verbatim>\<open>
  def get_mac(interface):
      try:
          output = run_command(f"ip link show {interface}" if IS_LINUX else f"ifconfig {interface}")
          match = re.search(r"ether\s+([\da-fA-F:]{17})", output) if IS_LINUX else re.search(r"(\w\w:\w\w:\w\w:\w\w:\w\w:\w\w)", output)
          return match.group(1) if match else None
      except:
          return None
  \<close>
\<close>

definition get_mac :: "env \<Rightarrow> string \<Rightarrow> world \<Rightarrow> string option \<times> world" where
  "get_mac E interface w =
     (case run_command E
             (if is_linux E then ''ip link show '' @ interface else ''ifconfig '' @ interface) w of
        (Inr output, w') \<Rightarrow>
          (if is_linux E then search_ether output else search_pairs output, w')
      | (Inl e, w') \<Rightarrow> (None, w'))"

section \<open>MAC operations\<close>

text \<open>
  \<^verbatim>\<open>
  def change_mac(interface, new_mac):
      try:
          cmds = [
              f"ip link set {interface} down" if IS_LINUX else f"ifconfig {interface} down",
              f"ip link set {interface} address {new_mac}" if IS_LINUX else f"ifconfig {interface} hw ether {new_mac}",
              f"ip link set {interface} up" if IS_LINUX else f"ifconfig {interface} up"
          ]
          for cmd in cmds:
              subprocess.call(cmd, shell=True)
          return True
      except:
          return False
  \<close>
  \<open>call_each\<close> is the \<^verbatim>\<open>for\<close> loop inside the \<^verbatim>\<open>try\<close>: the first call that raises
  ends it with \<open>False\<close>; the status a call returns is dropped.
\<close>

definition change_cmds :: "bool \<Rightarrow> string \<Rightarrow> string \<Rightarrow> string list" where
  "change_cmds linux interface new_mac =
     [if linux then ''ip link set '' @ interface @ '' down''
      else ''ifconfig '' @ interface @ '' down'',
      if linux then ''ip link set '' @ interface @ '' address '' @ new_mac
      else ''ifconfig '' @ interface @ '' hw ether '' @ new_mac,
      if linux then ''ip link set '' @ interface @ '' up''
      else ''ifconfig '' @ interface @ '' up'']"

fun call_each :: "env \<Rightarrow> string list \<Rightarrow> world \<Rightarrow> bool \<times> world" where
  "call_each E [] w = (True, w)"
| "call_each E (cmd # cmds) w =
     (case subprocess_call E cmd w of
        (Inr status, w') \<Rightarrow> call_each E cmds w'
      | (Inl e, w') \<Rightarrow> (False, w'))"

definition change_mac :: "env \<Rightarrow> string \<Rightarrow> string \<Rightarrow> world \<Rightarrow> bool \<times> world" where
  "change_mac E interface new_mac w = call_each E (change_cmds (is_linux E) interface new_mac) w"

text \<open>
  A dict as the list of its items: \<^verbatim>\<open>d[k] = v\<close> replaces the value of a key that is
  there and appends a new key at the end; \<^verbatim>\<open>d[k]\<close> is \<^term>\<open>map_of d k\<close>.
\<close>

fun dict_set :: "string \<Rightarrow> json \<Rightarrow> (string \<times> json) list \<Rightarrow> (string \<times> json) list" where
  "dict_set k v [] = [(k, v)]"
| "dict_set k v ((k', v') # d) = (if k' = k then (k, v) # d else (k', v') # dict_set k v d)"

text \<open>
  \<^verbatim>\<open>with open(MAC_BACKUP_FILE) as f: data = json.load(f)\<close>
\<close>

definition load_backup :: "backup_file \<Rightarrow> py_error + json" where
  "load_backup f =
     (case f of
        Missing \<Rightarrow> Inl FileNotFoundError
      | Unreadable \<Rightarrow> Inl OSError
      | Garbled \<Rightarrow> Inl JSONDecodeError
      | Holds data \<Rightarrow> Inr data)"

text \<open>
  \<^verbatim>\<open>with open(MAC_BACKUP_FILE, "w") as f: json.dump(data, f, indent=2)\<close>
\<close>

definition dump_backup :: "env \<Rightarrow> json \<Rightarrow> world \<Rightarrow> (py_error + unit) \<times> world" where
  "dump_backup E data w =
     (case writing E of
        Written \<Rightarrow> (Inr (), w\<lparr>disk := Holds data\<rparr>)
      | Open_fails \<Rightarrow> (Inl OSError, w)
      | Dump_fails \<Rightarrow> (Inl OSError, w\<lparr>disk := Garbled\<rparr>))"

text \<open>
  \<^verbatim>\<open>data[interface] = value\<close> for whatever \<^verbatim>\<open>json.load\<close> returned: only a dict
  takes a string as an index.
\<close>

definition set_item :: "json \<Rightarrow> string \<Rightarrow> json \<Rightarrow> py_error + json" where
  "set_item data k v = (case data of JObj d \<Rightarrow> Inr (JObj (dict_set k v d)) | _ \<Rightarrow> Inl TypeError)"

text \<open>
  \<^verbatim>\<open>
  def backup_mac(interface, mac):
      try:
          data = {}
          if os.path.exists(MAC_BACKUP_FILE):
              with open(MAC_BACKUP_FILE) as f:
                  data = json.load(f)
          data[interface] = {"original_mac": mac, "timestamp": str(datetime.now())}
          with open(MAC_BACKUP_FILE, "w") as f:
              json.dump(data, f, indent=2)
          print(colored("[ok] Original MAC backed up.", "yellow"))
      except Exception as e:
          print(colored(f"[x] Backup failed: {e}", "red"))
  \<close>
  \<open>backup_body\<close> is the body of the \<^verbatim>\<open>try\<close>.
\<close>

definition backup_record :: "string \<Rightarrow> string \<Rightarrow> json" where
  "backup_record mac stamp = JObj [(''original_mac'', JStr mac), (''timestamp'', JStr stamp)]"

definition backup_body :: "env \<Rightarrow> string \<Rightarrow> string \<Rightarrow> world \<Rightarrow> (py_error + unit) \<times> world" where
  "backup_body E interface mac w =
     (case (if disk w = Missing then Inr (JObj []) else load_backup (disk w)) of
        Inl e \<Rightarrow> (Inl e, w)
      | Inr data \<Rightarrow>
          (case set_item data interface (backup_record mac (now E)) of
             Inl e \<Rightarrow> (Inl e, w)
           | Inr data' \<Rightarrow>
               (case dump_backup E data' w of
                  (Inl e, w') \<Rightarrow> (Inl e, w')
                | (Inr u, w') \<Rightarrow> (Inr (), print Msg_backed_up w'))))"

definition backup_mac :: "env \<Rightarrow> string \<Rightarrow> string \<Rightarrow> world \<Rightarrow> (py_error + unit) \<times> world" where
  "backup_mac E interface mac w =
     (case backup_body E interface mac w of
        (Inl e, w') \<Rightarrow>
          if is_Exception e then (Inr (), print (Msg_backup_failed e) w') else (Inl e, w')
      | (Inr u, w') \<Rightarrow> (Inr (), w'))"

text \<open>
  \<^verbatim>\<open>interface in data\<close>: a key of a dict, an element of a list, a substring of a
  string; any other value is not iterable. \<^verbatim>\<open>value[key]\<close> with a string \<open>key\<close>:
  only a dict takes it, and raises \<^verbatim>\<open>KeyError\<close> when the key is missing.
\<close>

fun contains :: "string \<Rightarrow> string \<Rightarrow> bool" where
  "contains x [] = (x = [])"
| "contains x (c # cs) = (take (length x) (c # cs) = x \<or> contains x cs)"

definition py_in :: "string \<Rightarrow> json \<Rightarrow> py_error + bool" where
  "py_in k data =
     (case data of
        JObj d \<Rightarrow> Inr (k \<in> set (map fst d))
      | JArr xs \<Rightarrow> Inr (JStr k \<in> set xs)
      | JStr s \<Rightarrow> Inr (contains k s)
      | _ \<Rightarrow> Inl TypeError)"

definition get_item :: "json \<Rightarrow> string \<Rightarrow> py_error + json" where
  "get_item data k =
     (case data of
        JObj d \<Rightarrow> (case map_of d k of Some v \<Rightarrow> Inr v | None \<Rightarrow> Inl KeyError)
      | _ \<Rightarrow> Inl TypeError)"

text \<open>A value inside an f-string: a string as it is, any other value by \<^verbatim>\<open>str\<close>.\<close>

definition fstr :: "env \<Rightarrow> json \<Rightarrow> string" where
  "fstr E v = (case v of JStr s \<Rightarrow> s | _ \<Rightarrow> str_of E v)"

text \<open>
  \<^verbatim>\<open>
  def restore_mac(interface):
      try:
          with open(MAC_BACKUP_FILE) as f:
              data = json.load(f)
          if interface in data:
              original = data[interface]["original_mac"]
              change_mac(interface, original)
              print(colored(f"[ok] Restored MAC: {original}", "green"))
          else:
              print(colored("[x] No backup found for this interface.", "red"))
      except Exception as e:
          print(colored(f"[x] Restore failed: {e}", "red"))
  \<close>
  \<open>restore_body\<close> is the body of the \<^verbatim>\<open>try\<close>.
\<close>

definition restore_body :: "env \<Rightarrow> string \<Rightarrow> world \<Rightarrow> (py_error + unit) \<times> world" where
  "restore_body E interface w =
     (case load_backup (disk w) of
        Inl e \<Rightarrow> (Inl e, w)
      | Inr data \<Rightarrow>
          (case py_in interface data of
             Inl e \<Rightarrow> (Inl e, w)
           | Inr False \<Rightarrow> (Inr (), print Msg_no_backup w)
           | Inr True \<Rightarrow>
               (case get_item data interface of
                  Inl e \<Rightarrow> (Inl e, w)
                | Inr entry \<Rightarrow>
                    (case get_item entry ''original_mac'' of
                       Inl e \<Rightarrow> (Inl e, w)
                     | Inr original \<Rightarrow>
                         (case change_mac E interface (fstr E original) w of
                            (ok, w') \<Rightarrow> (Inr (), print (Msg_restored (fstr E original)) w'))))))"

definition restore_mac :: "env \<Rightarrow> string \<Rightarrow> world \<Rightarrow> (py_error + unit) \<times> world" where
  "restore_mac E interface w =
     (case restore_body E interface w of
        (Inl e, w') \<Rightarrow>
          if is_Exception e then (Inr (), print (Msg_restore_failed e) w') else (Inl e, w')
      | (Inr u, w') \<Rightarrow> (Inr (), w'))"

section \<open>Choosing an address that differs, and rotation\<close>

text \<open>A call of \<^verbatim>\<open>random_mac()\<close> in a run: it takes the next numbers.\<close>

definition next_mac :: "env \<Rightarrow> world \<Rightarrow> string \<times> world" where
  "next_mac E w = (random_mac (dice E (drawn w)), w\<lparr>drawn := Suc (drawn w)\<rparr>)"

text \<open>
  The loop that \<^verbatim>\<open>rotate_mac\<close> and \<^verbatim>\<open>cli\<close> both have, \<open>mac\<close> being the address
  chosen before it:
  \<^verbatim>\<open>
      while mac.lower() == current.lower():
          mac = random_mac()
  \<close>
  Nothing bounds it: it is a partial function, \<open>None\<close> when it never ends.
\<close>

partial_function (option) regenerate ::
  "env \<Rightarrow> string \<Rightarrow> string \<Rightarrow> world \<Rightarrow> (string \<times> world) option" where
  "regenerate E current mac w =
     (if py_lower mac = py_lower current
      then regenerate E current (fst (next_mac E w)) (snd (next_mac E w))
      else Some (mac, w))"

declare regenerate.simps [code]

text \<open>
  \<^verbatim>\<open>time.sleep(interval)\<close>: a negative interval raises \<^verbatim>\<open>ValueError\<close>; for any
  other interval the environment says what the call raises, if anything.
\<close>

definition sleep :: "env \<Rightarrow> int \<Rightarrow> world \<Rightarrow> (py_error + unit) \<times> world" where
  "sleep E interval w =
     (if interval < 0 then (Inl ValueError, w)
      else (case nap E (naps w) of Some e \<Rightarrow> Inl e | None \<Rightarrow> Inr (),
            w\<lparr>naps := Suc (naps w)\<rparr>))"

text \<open>
  \<^verbatim>\<open>
  def rotate_mac(interface, interval):
      print(colored(f"Rotating MAC every {interval}s on {interface}", "cyan"))
      try:
          while True:
              current = get_mac(interface)
              mac = random_mac()
              while mac.lower() == current.lower():
                  mac = random_mac()
              change_mac(interface, mac)
              print(colored(f"[ok] Rotated MAC: {mac}", "green"))
              time.sleep(interval)
      except KeyboardInterrupt:
          print(colored("\n[!] Rotation stopped by user.", "red"))
  \<close>
  \<open>rotate_round\<close> is one pass through the body of the \<^verbatim>\<open>while True\<close> loop: its
  value is \<open>Inl e\<close> when the exception \<open>e\<close> ends the pass, \<open>Inr ()\<close> when the pass
  reaches its end, and \<open>None\<close> when the inner loop never ends. \<open>rotate_loop\<close> is
  the loop: it repeats the pass and ends only by an exception, which is its value;
  \<open>None\<close> when it never ends. \<open>fresh_mac\<close> is the choice of the address in one pass,
  \<^verbatim>\<open>mac = random_mac()\<close> and the inner loop, for a \<open>current\<close> that is a string;
  when \<^verbatim>\<open>get_mac\<close> returned \<^verbatim>\<open>None\<close>, \<^verbatim>\<open>random_mac()\<close> is called and then
  \<^verbatim>\<open>current.lower()\<close> raises \<^verbatim>\<open>AttributeError\<close>.
\<close>

definition fresh_mac :: "env \<Rightarrow> string \<Rightarrow> world \<Rightarrow> (string \<times> world) option" where
  "fresh_mac E current w = (case next_mac E w of (mac, w1) \<Rightarrow> regenerate E current mac w1)"

definition rotate_round ::
  "env \<Rightarrow> string \<Rightarrow> int \<Rightarrow> world \<Rightarrow> ((py_error + unit) \<times> world) option" where
  "rotate_round E interface interval w =
     (case get_mac E interface w of
        (None, w1) \<Rightarrow> Some (Inl AttributeError, snd (next_mac E w1))
      | (Some current, w1) \<Rightarrow>
          (case fresh_mac E current w1 of
             None \<Rightarrow> None
           | Some (mac, w2) \<Rightarrow>
               (case change_mac E interface mac w2 of
                  (ok, w3) \<Rightarrow> Some (sleep E interval (print (Msg_rotated mac) w3)))))"

partial_function (option) rotate_loop ::
  "env \<Rightarrow> string \<Rightarrow> int \<Rightarrow> world \<Rightarrow> (py_error \<times> world) option" where
  "rotate_loop E interface interval w =
     (case rotate_round E interface interval w of
        None \<Rightarrow> None
      | Some (Inl e, w') \<Rightarrow> Some (e, w')
      | Some (Inr u, w') \<Rightarrow> rotate_loop E interface interval w')"

declare rotate_loop.simps [code]

definition rotate_mac ::
  "env \<Rightarrow> string \<Rightarrow> int \<Rightarrow> world \<Rightarrow> ((py_error + unit) \<times> world) option" where
  "rotate_mac E interface interval w =
     (case rotate_loop E interface interval (print (Msg_rotating interval interface) w) of
        None \<Rightarrow> None
      | Some (e, w') \<Rightarrow>
          if e = KeyboardInterrupt then Some (Inr (), print Msg_stopped w')
          else Some (Inl e, w'))"

section \<open>The command line\<close>

text \<open>
  The parsed arguments: \<^verbatim>\<open>args.interface\<close>, \<^verbatim>\<open>args.mac\<close>, \<^verbatim>\<open>args.restore\<close>,
  \<^verbatim>\<open>args.random\<close>, \<^verbatim>\<open>args.interval\<close>. A string or a number that is absent is
  \<open>None\<close>; Python takes \<open>None\<close>, the empty string and zero for false.
\<close>

record args =
  arg_interface :: "string option"
  arg_mac :: "string option"
  arg_restore :: bool
  arg_random :: bool
  arg_interval :: "int option"

definition given_str :: "string option \<Rightarrow> bool" where
  "given_str x \<longleftrightarrow> (case x of None \<Rightarrow> False | Some s \<Rightarrow> s \<noteq> [])"

definition given_int :: "int option \<Rightarrow> bool" where
  "given_int x \<longleftrightarrow> (case x of None \<Rightarrow> False | Some n \<Rightarrow> n \<noteq> 0)"

text \<open>
  The menu of \<^verbatim>\<open>cli\<close>:
  \<^verbatim>\<open>
          for i, iface in enumerate(interfaces, 1):
              print(f"  {i}. {iface}")
          while True:
              try:
                  choice_idx = int(input(colored("Enter choice: ", "yellow")))
                  if 1 <= choice_idx <= len(interfaces):
                      interface = interfaces[choice_idx - 1]
                      break
                  else:
                      print(colored("[x] Out of range. Try again.", "red"))
              except ValueError:
                  print(colored("[x] Invalid input. Enter a number.", "red"))
  \<close>
  \<^verbatim>\<open>input\<close> raises \<^verbatim>\<open>EOFError\<close> when the input has ended, and nothing catches it.
\<close>

fun list_options :: "nat \<Rightarrow> string list \<Rightarrow> world \<Rightarrow> world" where
  "list_options i [] w = w"
| "list_options i (iface # ifaces) w = list_options (Suc i) ifaces (print (Msg_option i iface) w)"

fun ask_choice :: "string list \<Rightarrow> int option list \<Rightarrow> world \<Rightarrow> (py_error + string) \<times> world" where
  "ask_choice interfaces [] w = (Inl EOFError, print Msg_prompt w)"
| "ask_choice interfaces (entry # entries) w =
     (case entry of
        None \<Rightarrow> ask_choice interfaces entries (print Msg_invalid_input (print Msg_prompt w))
      | Some choice_idx \<Rightarrow>
          if 1 \<le> choice_idx \<and> choice_idx \<le> int (length interfaces)
          then (Inr (interfaces ! nat (choice_idx - 1)), print Msg_prompt w)
          else ask_choice interfaces entries (print Msg_out_of_range (print Msg_prompt w)))"

text \<open>
  \<^verbatim>\<open>
      interface = args.interface
      if not interface:
          interfaces = detect_interfaces()
          if not interfaces:
              print(colored("[x] No interfaces found!", "red"))
              return
          print(colored("[*] Select interface:", "cyan"))
          ...
  \<close>
  The result is the interface, or \<open>None\<close> where \<^verbatim>\<open>cli\<close> returns.
\<close>

definition choose_interface ::
  "env \<Rightarrow> args \<Rightarrow> world \<Rightarrow> (py_error + string option) \<times> world" where
  "choose_interface E a w =
     (if given_str (arg_interface a) then (Inr (arg_interface a), w)
      else
        (case detect_interfaces E w of
           (interfaces, w1) \<Rightarrow>
             if interfaces = [] then (Inr None, print Msg_no_interfaces w1)
             else
               (case ask_choice interfaces (typed E)
                       (list_options 1 interfaces (print Msg_select w1)) of
                  (Inl e, w2) \<Rightarrow> (Inl e, w2)
                | (Inr interface, w2) \<Rightarrow> (Inr (Some interface), w2))))"

text \<open>
  The end of \<^verbatim>\<open>cli\<close>, the manual or random change:
  \<^verbatim>\<open>
      new_mac = args.mac if args.mac else random_mac()
      while new_mac.lower() == current.lower():
          new_mac = random_mac()

      if change_mac(interface, new_mac):
          updated = get_mac(interface)
          vendor = get_vendor(updated)
          print(colored(f"[ok] MAC changed successfully!\n    {current} -> {updated} ({vendor})", "green"))
      else:
          print(colored("[x] MAC change failed.", "red"))
  \<close>
  \<^verbatim>\<open>get_vendor(None)\<close> raises \<^verbatim>\<open>AttributeError\<close>.
\<close>

definition first_choice :: "env \<Rightarrow> args \<Rightarrow> world \<Rightarrow> string \<times> world" where
  "first_choice E a w =
     (case arg_mac a of
        None \<Rightarrow> next_mac E w
      | Some m \<Rightarrow> if m \<noteq> [] then (m, w) else next_mac E w)"

definition choose_new :: "env \<Rightarrow> args \<Rightarrow> string \<Rightarrow> world \<Rightarrow> (string \<times> world) option" where
  "choose_new E a current w =
     (case first_choice E a w of (mac, w1) \<Rightarrow> regenerate E current mac w1)"

definition change_once ::
  "env \<Rightarrow> args \<Rightarrow> string \<Rightarrow> string \<Rightarrow> world \<Rightarrow> ((py_error + unit) \<times> world) option" where
  "change_once E a interface current w =
     (case choose_new E a current w of
        None \<Rightarrow> None
      | Some (new_mac, w2) \<Rightarrow>
          (case change_mac E interface new_mac w2 of
             (True, w3) \<Rightarrow>
               (case get_mac E interface w3 of
                  (None, w4) \<Rightarrow> Some (Inl AttributeError, w4)
                | (Some updated, w4) \<Rightarrow>
                    Some (Inr (), print (Msg_changed current updated (get_vendor updated)) w4))
           | (False, w3) \<Rightarrow> Some (Inr (), print Msg_change_failed w3)))"

text \<open>
  \<^verbatim>\<open>cli\<close> from the point where the interface is known:
  \<^verbatim>\<open>
      current = get_mac(interface)
      if not current:
          print(colored(f"[x] Could not fetch MAC for {interface}", "red"))
          return
      print(... interface ...)
      print(... current ...)
      if args.restore:
          restore_mac(interface)
          return
      backup_mac(interface, current)
      if args.interval:
          rotate_mac(interface, args.interval)
          return
      ...
  \<close>
\<close>

definition cli_on ::
  "env \<Rightarrow> args \<Rightarrow> string \<Rightarrow> world \<Rightarrow> ((py_error + unit) \<times> world) option" where
  "cli_on E a interface w =
     (case get_mac E interface w of
        (None, w1) \<Rightarrow> Some (Inr (), print (Msg_no_mac interface) w1)
      | (Some current, w1) \<Rightarrow>
          if current = [] then Some (Inr (), print (Msg_no_mac interface) w1)
          else
            (let w2 = print (Msg_current current) (print (Msg_interface interface) w1)
             in if arg_restore a then Some (restore_mac E interface w2)
                else
                  (case backup_mac E interface current w2 of
                     (Inl e, w3) \<Rightarrow> Some (Inl e, w3)
                   | (Inr u, w3) \<Rightarrow>
                       (case arg_interval a of
                          None \<Rightarrow> change_once E a interface current w3
                        | Some interval \<Rightarrow>
                            if interval \<noteq> 0 then rotate_mac E interface interval w3
                            else change_once E a interface current w3))))"

text \<open>
  \<^verbatim>\<open>cli\<close> after \<^verbatim>\<open>parse_args\<close>:
  \<^verbatim>\<open>
      if not any([args.mac, args.random, args.restore, args.interval]):
          print(colored("[!] No action specified. Defaulting to random MAC.\n", "yellow"))
          args.random = True
      if args.mac:
          if not re.match(r"^([0-9A-Fa-f]{2}:){5}[0-9A-Fa-f]{2}$", args.mac):
              print(colored("[x] Invalid MAC format! Use: 00:11:22:33:44:55", "red"))
              return
      ...
  \<close>
  The value is \<open>None\<close> when the run never ends, \<open>Inr ()\<close> when \<^verbatim>\<open>cli\<close> returns and
  \<open>Inl e\<close> when the exception \<open>e\<close> leaves it. Nothing reads \<^verbatim>\<open>args.random\<close> after
  the first test, so the assignment to it has no counterpart here.
\<close>

definition cli :: "env \<Rightarrow> args \<Rightarrow> world \<Rightarrow> ((py_error + unit) \<times> world) option" where
  "cli E a w =
     (let w1 = (if \<not> (given_str (arg_mac a) \<or> arg_random a \<or> arg_restore a \<or>
                       given_int (arg_interval a))
                then print Msg_default_random w else w)
      in if (case arg_mac a of None \<Rightarrow> False | Some m \<Rightarrow> m \<noteq> [] \<and> \<not> mac_format_ok m)
         then Some (Inr (), print Msg_invalid_mac w1)
         else
           (case choose_interface E a w1 of
              (Inl e, w2) \<Rightarrow> Some (Inl e, w2)
            | (Inr None, w2) \<Rightarrow> Some (Inr (), w2)
            | (Inr (Some interface), w2) \<Rightarrow> cli_on E a interface w2))"

section \<open>Sample hosts\<close>

text \<open>
  Concrete environments for the examples below. \<open>link_show\<close> is what
  \<^verbatim>\<open>ip link show eth0\<close> prints for an interface with the address
  \<^verbatim>\<open>52:54:00:12:34:56\<close>. On \<open>host sh\<close> commands behave as \<open>sh\<close> says, nobody
  interrupts a sleep, and the \<open>n\<close>-th address drawn is \<^verbatim>\<open>00:14:22:00:00:\<close> followed
  by \<open>n\<close> in hexadecimal. \<open>start\<close> is the state before the program has done anything,
  with no backup file.
\<close>

definition link_show :: string where
  "link_show =
     ''2: eth0: <BROADCAST,MULTICAST,UP,LOWER_UP> mtu 1500 qdisc fq_codel state UP'' @
     [newline] @ ''    link/ether 52:54:00:12:34:56 brd ff:ff:ff:ff:ff:ff''"

definition host :: "(nat \<Rightarrow> string \<Rightarrow> proc_result) \<Rightarrow> env" where
  "host sh =
     \<lparr>is_linux = True, shell = sh,
      dice = (\<lambda>n. \<lparr>pick = 0, octet1 = 0, octet2 = 0, octet3 = n mod 256\<rparr>),
      nap = (\<lambda>n. None), typed = [], now = ''2024-01-01 12:00:00.000000'',
      writing = Written, str_of = (\<lambda>v. [])\<rparr>"

definition start :: world where
  "start = \<lparr>issued = [], printed = [], disk = Missing, drawn = 0, naps = 0\<rparr>"

text \<open>
  Three shells. On \<open>sh_ok\<close> every command exits with status 0. On \<open>sh_denied\<close> the
  address can be read, and every other command exits with status 2, as
  \<^verbatim>\<open>ip link set\<close> does for a user who may not change the link. On \<open>sh_gone\<close> every
  command exits with status 1, as \<^verbatim>\<open>ip link show eth0\<close> does when there is no
  \<^verbatim>\<open>eth0\<close>.
\<close>

definition sh_ok :: "nat \<Rightarrow> string \<Rightarrow> proc_result" where
  "sh_ok n cmd = (if take 13 cmd = ''ip link show '' then Finished 0 link_show else Finished 0 [])"

definition sh_denied :: "nat \<Rightarrow> string \<Rightarrow> proc_result" where
  "sh_denied n cmd =
     (if take 13 cmd = ''ip link show '' then Finished 0 link_show else Finished 2 [])"

definition sh_gone :: "nat \<Rightarrow> string \<Rightarrow> proc_result" where
  "sh_gone n cmd = Finished 1 []"

text \<open>
  A host whose \<^verbatim>\<open>eth0\<close> has the address \<^verbatim>\<open>AC:DE:48:00:00:0A\<close>, and on which
  the first address drawn is \<^verbatim>\<open>AC:DE:48:00:00:0a\<close>, the same address in another
  case, and the second \<^verbatim>\<open>AC:DE:48:00:00:0b\<close>.
\<close>

definition link_show_ac :: string where
  "link_show_ac =
     ''2: eth0: <BROADCAST,MULTICAST,UP,LOWER_UP> mtu 1500 qdisc fq_codel state UP'' @
     [newline] @ ''    link/ether AC:DE:48:00:00:0A brd ff:ff:ff:ff:ff:ff''"

definition sh_ac :: "nat \<Rightarrow> string \<Rightarrow> proc_result" where
  "sh_ac n cmd =
     (if take 13 cmd = ''ip link show '' then Finished 0 link_show_ac else Finished 0 [])"

definition host_ac :: env where
  "host_ac = (host sh_ac)\<lparr>dice := (\<lambda>n. \<lparr>pick = 2, octet1 = 0, octet2 = 0, octet3 = 10 + n\<rparr>)\<rparr>"

text \<open>The arguments \<^verbatim>\<open>-i eth0 -m m\<close>.\<close>

definition manual :: "string \<Rightarrow> args" where
  "manual m =
     \<lparr>arg_interface = Some ''eth0'', arg_mac = Some m, arg_restore = False,
      arg_random = False, arg_interval = None\<rparr>"

text \<open>A backup mapping with records for two interfaces.\<close>

definition saved :: "(string \<times> json) list" where
  "saved =
     [(''wlan0'', backup_record ''11:22:33:44:55:66'' ''2023-12-31 08:00:00.000000''),
      (''eth0'', backup_record ''52:54:00:12:34:56'' ''2023-12-31 09:00:00.000000'')]"

section \<open>Printing changes nothing but the output\<close>

lemma issued_print [simp]: "issued (print m w) = issued w"
  by (simp add: print_def)

lemma disk_print [simp]: "disk (print m w) = disk w"
  by (simp add: print_def)

section \<open>Facts about the text operations\<close>

lemma upper_lower: "upper_char (lower_char c) = upper_char c"
  unfolding upper_char_def lower_char_def
  by simp

lemma py_upper_lower: "py_upper (py_lower s) = py_upper s"
  by (simp add: py_upper_def py_lower_def upper_lower)

lemma upper_char_colon: "CHR '':'' = upper_char c \<longleftrightarrow> c = CHR '':''"
  unfolding upper_char_def by auto

lemma py_upper_join: "py_upper (py_join '':'' ps) = py_join '':'' (map py_upper ps)"
  by (induction "'':''" ps rule: py_join.induct) (simp_all add: py_upper_def upper_char_def)

lemma py_upper_no_colon: "CHR '':'' \<notin> set p \<Longrightarrow> CHR '':'' \<notin> set (py_upper p)"
  by (induction p) (auto simp: py_upper_def upper_char_colon)

lemma split_from_no_sep: "sep \<notin> set p \<Longrightarrow> split_from sep cur p = [rev cur @ p]"
  by (induction p arbitrary: cur) auto

lemma split_from_sep:
  "sep \<notin> set p \<Longrightarrow> split_from sep cur (p @ sep # rest) = (rev cur @ p) # split_from sep [] rest"
  by (induction p arbitrary: cur) auto

text \<open>Splitting what was joined gives the pieces back, when no piece holds the separator.\<close>

lemma py_split_join:
  "ps \<noteq> [] \<Longrightarrow> list_all (\<lambda>p. sep \<notin> set p) ps \<Longrightarrow> py_split sep (py_join [sep] ps) = ps"
proof (induction "[sep]" ps rule: py_join.induct)
  case 1
  then show ?case by simp
next
  case (2 p)
  then show ?case by (simp add: py_split_def split_from_no_sep)
next
  case (3 p q ps)
  then show ?case by (simp add: py_split_def split_from_sep)
qed

lemma hex_digit_is_hex: "n < 16 \<Longrightarrow> is_hex (hex_digit n)"
proof -
  assume "n < 16"
  then have "hex_digit n \<in> set ''0123456789abcdef''"
    unfolding hex_digit_def by (intro nth_mem) simp
  then show ?thesis by (simp add: is_hex_def) blast
qed

lemma is_hex_not_colon: "is_hex c \<Longrightarrow> c \<noteq> CHR '':''"
  by (auto simp: is_hex_def)

lemma hex_pair_no_colon: "length p = 2 \<and> list_all is_hex p \<Longrightarrow> CHR '':'' \<notin> set p"
  by (auto simp: list_all_iff dest: is_hex_not_colon)

lemma format_02x_small:
  "n < 256 \<Longrightarrow> format_02x n = [hex_digit (n div 16), hex_digit (n mod 16)]"
proof (cases "n < 16")
  case True
  then show ?thesis by (simp add: format_02x_def Let_def hex_digit_def)
next
  case False
  assume "n < 256"
  then have "n div 16 < 16" by arith
  with False show ?thesis by (simp add: format_02x_def Let_def)
qed

lemma format_02x_pair:
  "n \<le> 255 \<Longrightarrow> length (format_02x n) = 2 \<and> list_all is_hex (format_02x n)"
proof -
  assume "n \<le> 255"
  then have n: "n < 256" by simp
  then have "n div 16 < 16" by arith
  moreover have "n mod 16 < 16" by simp
  ultimately show ?thesis by (simp add: format_02x_small [OF n] hex_digit_is_hex)
qed

lemma six_hex_pairs_join:
  assumes "length ps = 6" and "list_all (\<lambda>p. length p = 2 \<and> list_all is_hex p) ps"
  shows "six_hex_pairs (py_join '':'' ps)"
proof -
  from assms(1) have ne: "ps \<noteq> []" by auto
  have "list_all (\<lambda>p. CHR '':'' \<notin> set p) ps"
    by (rule list.pred_mono_strong [OF assms(2)]) (rule hex_pair_no_colon)
  with ne have "py_split (CHR '':'') (py_join '':'' ps) = ps" by (rule py_split_join)
  with assms show ?thesis unfolding six_hex_pairs_def Let_def by (simp only: simp_thms)
qed

lemma split_from_nonempty: "split_from sep cur s \<noteq> []"
  by (induction s arbitrary: cur) auto

lemma join_split_from: "py_join [sep] (split_from sep cur s) = rev cur @ s"
proof (induction s arbitrary: cur)
  case Nil
  then show ?case by simp
next
  case (Cons c cs)
  show ?case
  proof (cases "c = sep")
    case True
    obtain q qs where q: "split_from sep [] cs = q # qs"
      using split_from_nonempty [of sep "[]" cs] by (cases "split_from sep [] cs") auto
    have "py_join [sep] (q # qs) = cs" using Cons [of "[]"] q by simp
    with True q show ?thesis by simp
  next
    case False
    with Cons [of "c # cur"] show ?thesis by simp
  qed
qed

lemma py_join_split: "py_join [sep] (py_split sep s) = s"
  by (simp add: py_split_def join_split_from)

section \<open>Vendor lookup\<close>

lemma get_vendor_lower: "get_vendor (py_lower mac) = get_vendor mac"
  by (simp add: get_vendor_def py_upper_lower)

lemma get_vendor_range: "get_vendor mac \<in> set (map snd VENDOR_PREFIXES) \<union> {''Unknown''}"
  unfolding get_vendor_def Let_def
  by (auto split: option.splits dest!: map_of_SomeD intro: rev_image_eqI)

text \<open>
  C7. \<open>get_vendor\<close> is a function defined on every string: its value is a vendor name
  of the table or \<open>''Unknown''\<close>, and two addresses that differ only in the case of
  their letters (they are equal once lower-cased) have the same value.
\<close>

theorem get_vendor_total_caseless:
  "get_vendor mac \<in> set (map snd VENDOR_PREFIXES) \<union> {''Unknown''} \<and>
   (py_lower a = py_lower b \<longrightarrow> get_vendor a = get_vendor b)"
proof
  show "get_vendor mac \<in> set (map snd VENDOR_PREFIXES) \<union> {''Unknown''}"
    by (rule get_vendor_range)
  show "py_lower a = py_lower b \<longrightarrow> get_vendor a = get_vendor b"
  proof
    assume "py_lower a = py_lower b"
    then have "get_vendor (py_lower a) = get_vendor (py_lower b)" by simp
    then show "get_vendor a = get_vendor b" by (simp only: get_vendor_lower)
  qed
qed

theorem get_vendor_total_caseless_witness:
  "get_vendor ''ac:de:48:00:11:22'' = ''Private'' \<and>
   py_lower ''ac:de:48:00:11:22'' = py_lower ''AC:DE:48:00:11:22'' \<and>
   get_vendor ''ac:de:48:00:11:22'' = get_vendor ''AC:DE:48:00:11:22'' \<and>
   py_lower ''aa:bb:cc:dd:ee:ff'' = py_lower ''AA:BB:CC:DD:EE:FF'' \<and>
   get_vendor ''aa:bb:cc:dd:ee:ff'' = get_vendor ''AA:BB:CC:DD:EE:FF''"
proof -
  have l': "py_lower ''aa:bb:cc:dd:ee:ff'' = py_lower ''AA:BB:CC:DD:EE:FF''"
    by (simp add: py_lower_def lower_char_def)
  from get_vendor_total_caseless
         [of "''aa:bb:cc:dd:ee:ff''" "''aa:bb:cc:dd:ee:ff''" "''AA:BB:CC:DD:EE:FF''"] l'
  have v': "get_vendor ''aa:bb:cc:dd:ee:ff'' = get_vendor ''AA:BB:CC:DD:EE:FF''"
    by blast
  have v: "get_vendor ''ac:de:48:00:11:22'' = ''Private''"
    by (simp add: get_vendor_def py_upper_def upper_char_def py_split_def VENDOR_PREFIXES_def)
  have l: "py_lower ''ac:de:48:00:11:22'' = py_lower ''AC:DE:48:00:11:22''"
    by (simp add: py_lower_def lower_char_def)
  from get_vendor_total_caseless
         [of "''ac:de:48:00:11:22''" "''ac:de:48:00:11:22''" "''AC:DE:48:00:11:22''"] l
  have "get_vendor ''ac:de:48:00:11:22'' = get_vendor ''AC:DE:48:00:11:22''"
    by blast
  with v l l' v' show ?thesis by (simp only: simp_thms)
qed

section \<open>Generated addresses\<close>

lemma key_parts:
  "i < length VENDOR_PREFIXES \<Longrightarrow>
   length (py_split (CHR '':'') (map fst VENDOR_PREFIXES ! i)) = 3 \<and>
   list_all (\<lambda>p. length p = 2 \<and> list_all is_hex p)
     (py_split (CHR '':'') (map fst VENDOR_PREFIXES ! i))"
proof -
  assume "i < length VENDOR_PREFIXES"
  then have "i < 3" by (simp add: VENDOR_PREFIXES_def)
  then have "i = 0 \<or> i = 1 \<or> i = 2" by arith
  then show ?thesis
    by (elim disjE) (simp_all add: VENDOR_PREFIXES_def py_split_def is_hex_def)
qed

lemma random_mac_parts:
  assumes "draw_ok d"
  shows "length (py_split (CHR '':'') (map fst VENDOR_PREFIXES ! pick d)) = 3"
    and "list_all (\<lambda>p. length p = 2 \<and> list_all is_hex p)
           (py_split (CHR '':'') (map fst VENDOR_PREFIXES ! pick d) @
            map format_02x [octet1 d, octet2 d, octet3 d])"
proof -
  let ?prefix = "py_split (CHR '':'') (map fst VENDOR_PREFIXES ! pick d)"
  let ?suffix = "map format_02x [octet1 d, octet2 d, octet3 d]"
  from assms have "pick d < length VENDOR_PREFIXES" by (simp add: draw_ok_def)
  then have k: "length ?prefix = 3 \<and> list_all (\<lambda>p. length p = 2 \<and> list_all is_hex p) ?prefix"
    by (rule key_parts)
  from assms have s: "list_all (\<lambda>p. length p = 2 \<and> list_all is_hex p) ?suffix"
    by (simp add: draw_ok_def format_02x_pair)
  from k show "length ?prefix = 3" by (rule conjunct1)
  from k s show "list_all (\<lambda>p. length p = 2 \<and> list_all is_hex p) (?prefix @ ?suffix)"
    by (simp only: list_all_append simp_thms)
qed

text \<open>
  C8. Whatever numbers \<^verbatim>\<open>random_mac\<close> draws (an index into the keys, three octets
  from 0 to 255), the address it returns splits at the colons into exactly six pieces,
  each of two hexadecimal digits.
\<close>

theorem random_mac_six_hex_pairs: "draw_ok d \<Longrightarrow> six_hex_pairs (random_mac d)"
proof -
  assume ok: "draw_ok d"
  let ?prefix = "py_split (CHR '':'') (map fst VENDOR_PREFIXES ! pick d)"
  let ?suffix = "map format_02x [octet1 d, octet2 d, octet3 d]"
  from random_mac_parts [OF ok] have "length (?prefix @ ?suffix) = 6" by simp
  then have "six_hex_pairs (py_join '':'' (?prefix @ ?suffix))"
    using random_mac_parts(2) [OF ok] by (rule six_hex_pairs_join)
  then show ?thesis by (simp only: random_mac_def Let_def)
qed

theorem random_mac_six_hex_pairs_witness:
  "draw_ok \<lparr>pick = 2, octet1 = 0, octet2 = 255, octet3 = 17\<rparr> \<and>
   random_mac \<lparr>pick = 2, octet1 = 0, octet2 = 255, octet3 = 17\<rparr> = ''AC:DE:48:00:ff:11'' \<and>
   six_hex_pairs ''AC:DE:48:00:ff:11''"
proof -
  have ok: "draw_ok \<lparr>pick = 2, octet1 = 0, octet2 = 255, octet3 = 17\<rparr>"
    by (simp add: draw_ok_def VENDOR_PREFIXES_def)
  have eq: "random_mac \<lparr>pick = 2, octet1 = 0, octet2 = 255, octet3 = 17\<rparr> = ''AC:DE:48:00:ff:11''"
    by (simp add: random_mac_def VENDOR_PREFIXES_def py_split_def format_02x_def hex_digit_def)
  from random_mac_six_hex_pairs [OF ok] have "six_hex_pairs ''AC:DE:48:00:ff:11''"
    by (simp only: eq)
  with ok eq show ?thesis by (simp only: simp_thms)
qed

lemma key_lookup:
  "i < length VENDOR_PREFIXES \<Longrightarrow>
   py_join '':'' (map py_upper (py_split (CHR '':'') (map fst VENDOR_PREFIXES ! i))) =
     fst (VENDOR_PREFIXES ! i) \<and>
   map_of VENDOR_PREFIXES (fst (VENDOR_PREFIXES ! i)) = Some (snd (VENDOR_PREFIXES ! i)) \<and>
   snd (VENDOR_PREFIXES ! i) \<noteq> ''Unknown''"
proof -
  assume "i < length VENDOR_PREFIXES"
  then have "i < 3" by (simp add: VENDOR_PREFIXES_def)
  then have "i = 0 \<or> i = 1 \<or> i = 2" by arith
  then show ?thesis
    by (elim disjE)
      (simp_all add: VENDOR_PREFIXES_def py_split_def py_upper_def upper_char_def)
qed

text \<open>
  What \<^verbatim>\<open>get_vendor\<close> computes from a generated address: the pieces of the key that
  was picked, upper-cased.
\<close>

lemma upper_prefix_of_random_mac:
  assumes "draw_ok d"
  shows "take 3 (py_split (CHR '':'') (py_upper (random_mac d))) =
         map py_upper (py_split (CHR '':'') (map fst VENDOR_PREFIXES ! pick d))"
proof -
  let ?prefix = "py_split (CHR '':'') (map fst VENDOR_PREFIXES ! pick d)"
  let ?suffix = "map format_02x [octet1 d, octet2 d, octet3 d]"
  let ?parts = "?prefix @ ?suffix"
  have "list_all (\<lambda>p. CHR '':'' \<notin> set p) ?parts"
    by (rule list.pred_mono_strong [OF random_mac_parts(2) [OF assms]]) (rule hex_pair_no_colon)
  then have "list_all (\<lambda>p. CHR '':'' \<notin> set p) (map py_upper ?parts)"
    unfolding list_all_iff by (auto dest: py_upper_no_colon)
  moreover have "map py_upper ?parts \<noteq> []" by simp
  ultimately have "py_split (CHR '':'') (py_join '':'' (map py_upper ?parts)) = map py_upper ?parts"
    by (intro py_split_join)
  then have "py_split (CHR '':'') (py_upper (random_mac d)) = map py_upper ?parts"
    by (simp only: random_mac_def Let_def py_upper_join)
  with random_mac_parts(1) [OF assms] show ?thesis by simp
qed

text \<open>
  C10. The first three octets of a generated address, upper-cased, are a key of the
  vendor table, and \<open>get_vendor\<close> of the address is the vendor of that key: one of
  Dell, Cisco and Private, never \<open>''Unknown''\<close>.
\<close>

theorem random_mac_vendor_known:
  "draw_ok d \<Longrightarrow>
   py_join '':'' (take 3 (py_split (CHR '':'') (py_upper (random_mac d))))
     \<in> set (map fst VENDOR_PREFIXES) \<and>
   get_vendor (random_mac d) \<in> set (map snd VENDOR_PREFIXES) \<and>
   get_vendor (random_mac d) \<in> {''Dell'', ''Cisco'', ''Private''} \<and>
   get_vendor (random_mac d) \<noteq> ''Unknown''"
proof -
  assume ok: "draw_ok d"
  then have i: "pick d < length VENDOR_PREFIXES" by (simp add: draw_ok_def)
  note k = key_lookup [OF i]
  have p: "py_join '':'' (take 3 (py_split (CHR '':'') (py_upper (random_mac d)))) =
           fst (VENDOR_PREFIXES ! pick d)"
    using k by (simp only: upper_prefix_of_random_mac [OF ok])
  have v: "get_vendor (random_mac d) = snd (VENDOR_PREFIXES ! pick d)"
    using k by (simp add: get_vendor_def p)
  have m: "VENDOR_PREFIXES ! pick d \<in> set VENDOR_PREFIXES" using i by (rule nth_mem)
  have "fst (VENDOR_PREFIXES ! pick d) \<in> set (map fst VENDOR_PREFIXES)"
    using m by (simp only: set_map) (rule imageI)
  moreover have s: "snd (VENDOR_PREFIXES ! pick d) \<in> set (map snd VENDOR_PREFIXES)"
    using m by (simp only: set_map) (rule imageI)
  moreover from s have "snd (VENDOR_PREFIXES ! pick d) \<in> {''Dell'', ''Cisco'', ''Private''}"
    by (simp add: VENDOR_PREFIXES_def)
  ultimately show ?thesis using k by (simp only: p v simp_thms)
qed

theorem random_mac_vendor_known_witness:
  "draw_ok \<lparr>pick = 1, octet1 = 171, octet2 = 5, octet3 = 254\<rparr> \<and>
   random_mac \<lparr>pick = 1, octet1 = 171, octet2 = 5, octet3 = 254\<rparr> = ''00:40:96:ab:05:fe'' \<and>
   get_vendor ''00:40:96:ab:05:fe'' = ''Cisco''"
proof -
  have ok: "draw_ok \<lparr>pick = 1, octet1 = 171, octet2 = 5, octet3 = 254\<rparr>"
    by (simp add: draw_ok_def VENDOR_PREFIXES_def)
  have eq: "random_mac \<lparr>pick = 1, octet1 = 171, octet2 = 5, octet3 = 254\<rparr> = ''00:40:96:ab:05:fe''"
    by (simp add: random_mac_def VENDOR_PREFIXES_def py_split_def format_02x_def hex_digit_def)
  have "get_vendor ''00:40:96:ab:05:fe'' = ''Cisco''"
    using random_mac_vendor_known [OF ok]
    by (simp add: eq get_vendor_def py_upper_def upper_char_def py_split_def VENDOR_PREFIXES_def)
  with ok eq show ?thesis by (simp only: simp_thms)
qed

section \<open>The format check of the command line\<close>

lemma six_hex_pairs_iff:
  "six_hex_pairs s \<longleftrightarrow> (\<exists>ps. length ps = 6 \<and> list_all hex_pair ps \<and> s = py_join '':'' ps)"
proof
  assume "six_hex_pairs s"
  then have "length (py_split (CHR '':'') s) = 6 \<and> list_all hex_pair (py_split (CHR '':'') s)"
    by (simp add: six_hex_pairs_def Let_def)
  moreover have "s = py_join '':'' (py_split (CHR '':'') s)" by (simp only: py_join_split)
  ultimately show "\<exists>ps. length ps = 6 \<and> list_all hex_pair ps \<and> s = py_join '':'' ps" by blast
next
  assume "\<exists>ps. length ps = 6 \<and> list_all hex_pair ps \<and> s = py_join '':'' ps"
  then show "six_hex_pairs s" by (auto intro: six_hex_pairs_join)
qed

lemma py_join_snoc:
  "py_join '':'' (ps @ [q]) = concat (map (\<lambda>p. p @ '':'') ps) @ q"
  by (induction "'':''" ps rule: py_join.induct) simp_all

lemma hex_pair_form: "hex_pair p \<longleftrightarrow> (\<exists>a b. p = [a, b] \<and> is_hex a \<and> is_hex b)"
  by (cases p rule: list.exhaust [case_product list.exhaust ]) (auto simp: length_Suc_conv)

lemma hex_groups_join:
  "list_all hex_pair ps \<Longrightarrow>
   hex_groups (length ps) (concat (map (\<lambda>p. p @ '':'') ps) @ r) = Some r"
  by (induction ps) (auto simp: hex_pair_form)

lemma hex_groups_form:
  "hex_groups n s = Some r \<Longrightarrow>
   \<exists>ps. length ps = n \<and> list_all hex_pair ps \<and> s = concat (map (\<lambda>p. p @ '':'') ps) @ r"
proof (induction n s rule: hex_groups.induct)
  case (1 s)
  then show ?case by simp
next
  case (2 n a b c s)
  then have h: "is_hex a" "is_hex b" "c = CHR '':''" "hex_groups n s = Some r"
    by (simp_all split: if_splits)
  from 2(1) h obtain ps where
    "length ps = n" "list_all hex_pair ps" "s = concat (map (\<lambda>p. p @ '':'') ps) @ r"
    by auto
  with h show ?case by (intro exI [of _ "[a, b] # ps"]) simp
qed simp_all

lemma mac_format_ok_append:
  assumes "six_hex_pairs s0" and "at_dollar t"
  shows "mac_format_ok (s0 @ t)"
proof -
  from assms(1) obtain ps' where ps': "length ps' = 6" "list_all hex_pair ps'" "s0 = py_join '':'' ps'"
    unfolding six_hex_pairs_iff by blast
  from ps'(1) have "ps' \<noteq> []" by auto
  then obtain ps q where pq: "ps' = ps @ [q]" by (cases ps' rule: rev_cases) auto
  with ps' have l: "length ps = 5" and h: "list_all hex_pair ps" and hq: "hex_pair q" by simp_all
  from hq obtain a b where q: "q = [a, b]" "is_hex a" "is_hex b" unfolding hex_pair_form by blast
  have "s0 @ t = concat (map (\<lambda>p. p @ '':'') ps) @ (a # b # t)"
    using ps'(3) pq q(1) by (simp add: py_join_snoc)
  moreover have "hex_groups 5 (concat (map (\<lambda>p. p @ '':'') ps) @ (a # b # t)) = Some (a # b # t)"
    using hex_groups_join [OF h, of "a # b # t"] l by simp
  ultimately show ?thesis using q(2,3) assms(2) by (simp add: mac_format_ok_def)
qed

lemma mac_format_ok_form:
  assumes "mac_format_ok s"
  shows "\<exists>s0 t. s = s0 @ t \<and> six_hex_pairs s0 \<and> at_dollar t"
proof -
  from assms obtain r where r: "hex_groups 5 s = Some r"
    by (auto simp: mac_format_ok_def split: option.splits)
  with assms obtain a b t where t: "r = a # b # t" "is_hex a" "is_hex b" "at_dollar t"
    by (auto simp: mac_format_ok_def split: list.splits)
  from hex_groups_form [OF r] obtain ps where
    ps: "length ps = 5" "list_all hex_pair ps" "s = concat (map (\<lambda>p. p @ '':'') ps) @ r"
    by blast
  let ?s0 = "py_join '':'' (ps @ [[a, b]])"
  have "s = ?s0 @ t" using ps(3) t(1) by (simp add: py_join_snoc)
  moreover have "six_hex_pairs ?s0"
    unfolding six_hex_pairs_iff using ps(1,2) t(2,3)
    by (intro exI [of _ "ps @ [[a, b]]"]) simp
  ultimately show ?thesis using t(4) by blast
qed

text \<open>
  The strings the check of \<^verbatim>\<open>cli\<close> accepts: six pairs of hexadecimal digits joined
  by colons, and the same followed by one newline.
\<close>

lemma mac_format_ok_iff:
  "mac_format_ok s \<longleftrightarrow> six_hex_pairs s \<or> (\<exists>s0. s = s0 @ [newline] \<and> six_hex_pairs s0)"
proof
  assume "mac_format_ok s"
  from mac_format_ok_form [OF this] show "six_hex_pairs s \<or> (\<exists>s0. s = s0 @ [newline] \<and> six_hex_pairs s0)"
    by (auto simp: at_dollar_def)
next
  assume "six_hex_pairs s \<or> (\<exists>s0. s = s0 @ [newline] \<and> six_hex_pairs s0)"
  then show "mac_format_ok s"
  proof
    assume "six_hex_pairs s"
    then have "mac_format_ok (s @ [])" by (rule mac_format_ok_append) (simp add: at_dollar_def)
    then show ?thesis by simp
  next
    assume "\<exists>s0. s = s0 @ [newline] \<and> six_hex_pairs s0"
    then obtain s0 where "s = s0 @ [newline]" "six_hex_pairs s0" by blast
    then show ?thesis by (auto intro: mac_format_ok_append simp: at_dollar_def)
  qed
qed

text \<open>
  An address that the check refuses ends the run: the message is printed, no command
  is run and the backup file is not touched.
\<close>

lemma cli_rejects_malformed:
  assumes "arg_mac a = Some m" and "m \<noteq> []" and "\<not> mac_format_ok m"
  shows "cli E a w = Some (Inr (), print Msg_invalid_mac w)"
  using assms by (simp add: cli_def given_str_def)

text \<open>
  C4. The claim says that the check accepts an address if and only if it is six pairs of
  hexadecimal digits joined by colons. The check accepts
  \<^verbatim>\<open>00:11:22:33:44:55\<close> followed by a newline, which is not of that form: Python's
  \<^verbatim>\<open>$\<close> also matches before a final newline. With \<^verbatim>\<open>-i eth0\<close> and that address
  the run goes on and passes the address, newline included, to the shell.
\<close>

theorem mac_format_accepts_trailing_newline:
  "mac_format_ok (''00:11:22:33:44:55'' @ [newline]) \<and>
   \<not> six_hex_pairs (''00:11:22:33:44:55'' @ [newline]) \<and>
   map_option (\<lambda>r. (fst r, issued (snd r)))
     (cli (host sh_ok) (manual (''00:11:22:33:44:55'' @ [newline])) start) =
     Some (Inr (), [''ip link show eth0'', ''ip link set eth0 down'',
                    ''ip link set eth0 address 00:11:22:33:44:55'' @ [newline],
                    ''ip link set eth0 up'', ''ip link show eth0''])"
  by code_simp

section \<open>Changing the address\<close>

text \<open>
  \<^verbatim>\<open>change_mac\<close> returns \<open>True\<close> whenever every command finishes, with whatever
  exit status.
\<close>

lemma call_each_finishes:
  "(\<And>n c. \<exists>st out. shell E n c = Finished st out) \<Longrightarrow> fst (call_each E cmds w)"
proof (induction cmds arbitrary: w)
  case Nil
  then show ?case by simp
next
  case (Cons c cmds)
  from Cons.prems obtain st out where "shell E (length (issued w)) c = Finished st out"
    by blast
  then show ?case using Cons by (simp add: subprocess_call_def)
qed

lemma change_mac_ignores_status:
  "(\<And>n c. \<exists>st out. shell E n c = Finished st out) \<Longrightarrow> fst (change_mac E i m w)"
  unfolding change_mac_def by (rule call_each_finishes)

text \<open>
  The commands \<^verbatim>\<open>change_mac\<close> starts are the first of its three commands, up to the
  first whose call raises; all three when it returns \<open>True\<close>.
\<close>

lemma call_each_issued:
  "\<exists>k. (cmds \<noteq> [] \<longrightarrow> 1 \<le> k) \<and> k \<le> length cmds \<and>
       issued (snd (call_each E cmds w)) = issued w @ take k cmds \<and>
       (fst (call_each E cmds w) \<longrightarrow> k = length cmds)"
proof (induction cmds arbitrary: w)
  case Nil
  then show ?case by simp
next
  case (Cons c cmds)
  let ?w' = "w\<lparr>issued := issued w @ [c]\<rparr>"
  show ?case
  proof (cases "shell E (length (issued w)) c")
    case (Finished st out)
    then have e: "call_each E (c # cmds) w = call_each E cmds ?w'"
      by (simp add: subprocess_call_def)
    from Cons.IH [of ?w'] obtain k where
      k: "k \<le> length cmds" "issued (snd (call_each E cmds ?w')) = issued ?w' @ take k cmds"
         "fst (call_each E cmds ?w') \<longrightarrow> k = length cmds"
      by blast
    then show ?thesis unfolding e by (intro exI [of _ "Suc k"]) simp
  next
    case (Fails x)
    then have "call_each E (c # cmds) w = (False, ?w')"
      by (simp add: subprocess_call_def)
    then show ?thesis by (intro exI [of _ 1]) simp
  qed
qed

lemma change_mac_issued:
  "\<exists>k. 1 \<le> k \<and> k \<le> 3 \<and>
       issued (snd (change_mac E i m w)) = issued w @ take k (change_cmds (is_linux E) i m)"
proof -
  have "change_cmds (is_linux E) i m \<noteq> []" "length (change_cmds (is_linux E) i m) = 3"
    by (simp_all add: change_cmds_def)
  with call_each_issued [of "change_cmds (is_linux E) i m" E w] show ?thesis
    unfolding change_mac_def by auto
qed

text \<open>
  C1. The claim says that \<^verbatim>\<open>change_mac\<close> reports a failure when one of its three
  commands exits with a status that is not zero. On the host \<open>sh_denied\<close> each of the
  three commands exits with status 2, and \<^verbatim>\<open>change_mac\<close> returns \<open>True\<close>; the run of
  \<^verbatim>\<open>cli\<close> with \<^verbatim>\<open>-i eth0 -m 00:11:22:33:44:55\<close> prints that the address was
  changed, with the old address as the new one, and not that the change failed.
\<close>

theorem change_mac_true_on_failed_commands:
  "change_mac (host sh_denied) ''eth0'' ''00:11:22:33:44:55'' start =
     (True, start\<lparr>issued := [''ip link set eth0 down'',
                              ''ip link set eth0 address 00:11:22:33:44:55'',
                              ''ip link set eth0 up'']\<rparr>) \<and>
   sh_denied 0 ''ip link set eth0 down'' = Finished 2 [] \<and>
   sh_denied 1 ''ip link set eth0 address 00:11:22:33:44:55'' = Finished 2 [] \<and>
   sh_denied 2 ''ip link set eth0 up'' = Finished 2 [] \<and>
   map_option (\<lambda>r. (fst r, printed (snd r)))
     (cli (host sh_denied) (manual ''00:11:22:33:44:55'') start) =
     Some (Inr (), [Msg_interface ''eth0'', Msg_current ''52:54:00:12:34:56'', Msg_backed_up,
                    Msg_changed ''52:54:00:12:34:56'' ''52:54:00:12:34:56'' ''Unknown''])"
  by code_simp

section \<open>Backup and restore\<close>

lemma dict_set_twice: "dict_set k v2 (dict_set k v1 d) = dict_set k v2 d"
  by (induction d) auto

lemma map_of_dict_set: "map_of (dict_set k v d) k = Some v"
  by (induction d) auto

lemma map_of_dict_set_other: "k' \<noteq> k \<Longrightarrow> map_of (dict_set k v d) k' = map_of d k'"
  by (induction d) auto

lemma dict_set_others:
  "filter (\<lambda>kv. fst kv \<noteq> k) (dict_set k v d) = filter (\<lambda>kv. fst kv \<noteq> k) d"
  by (induction d) auto

lemma dict_set_one:
  "distinct (map fst d) \<Longrightarrow> length (filter (\<lambda>kv. fst kv = k) (dict_set k v d)) = 1"
proof (induction d)
  case Nil
  then show ?case by simp
next
  case (Cons p d)
  show ?case
  proof (cases "fst p = k")
    case True
    with Cons.prems have "k \<notin> fst ` set d" by auto
    then have "filter (\<lambda>kv. fst kv = k) d = []" by (auto simp: filter_empty_conv)
    with True show ?thesis by (cases p) simp
  next
    case False
    with Cons show ?thesis by (cases p) simp
  qed
qed

text \<open>What one backup does to a file that holds a mapping.\<close>

lemma backup_mac_mapping:
  assumes "disk w = Missing \<and> d = [] \<or> disk w = Holds (JObj d)" and "writing E = Written"
  shows "backup_mac E i mac w =
           (Inr (), print Msg_backed_up
                      (w\<lparr>disk := Holds (JObj (dict_set i (backup_record mac (now E)) d))\<rparr>))"
  using assms
  by (auto simp: backup_mac_def backup_body_def load_backup_def set_item_def dump_backup_def)

text \<open>
  C9. Let the backup file hold a mapping \<open>d\<close> (no file is the empty mapping; a dict has
  each key once), and let the writes succeed. After two calls of \<^verbatim>\<open>backup_mac\<close> for
  the same interface, the first with the address \<open>mac1\<close> and the second with \<open>mac2\<close>,
  the file holds the mapping \<open>d\<close> with one record set for the interface: exactly one
  item has the interface as its key, its value is the record with \<open>mac2\<close> under
  \<^verbatim>\<open>original_mac\<close> and the time of the second call under \<^verbatim>\<open>timestamp\<close>, and the
  items of all other interfaces are those of \<open>d\<close>, in their order.
\<close>

theorem backup_twice_overwrites:
  assumes "disk w = Missing \<and> d = [] \<or> disk w = Holds (JObj d)"
    and "distinct (map fst d)"
    and "writing E1 = Written" and "writing E2 = Written"
  shows "\<exists>d'. disk (snd (backup_mac E2 i mac2 (snd (backup_mac E1 i mac1 w)))) = Holds (JObj d') \<and>
           d' = dict_set i (JObj [(''original_mac'', JStr mac2), (''timestamp'', JStr (now E2))]) d \<and>
           length (filter (\<lambda>kv. fst kv = i) d') = 1 \<and>
           map_of d' i =
             Some (JObj [(''original_mac'', JStr mac2), (''timestamp'', JStr (now E2))]) \<and>
           filter (\<lambda>kv. fst kv \<noteq> i) d' = filter (\<lambda>kv. fst kv \<noteq> i) d"
proof -
  let ?r1 = "backup_record mac1 (now E1)"
  let ?r2 = "JObj [(''original_mac'', JStr mac2), (''timestamp'', JStr (now E2))]"
  let ?w1 = "snd (backup_mac E1 i mac1 w)"
  have r2: "backup_record mac2 (now E2) = ?r2" by (simp add: backup_record_def)
  have w1: "disk ?w1 = Holds (JObj (dict_set i ?r1 d))"
    by (simp add: backup_mac_mapping [OF assms(1,3)])
  then have "disk ?w1 = Missing \<and> dict_set i ?r1 d = [] \<or> disk ?w1 = Holds (JObj (dict_set i ?r1 d))"
    by simp
  from backup_mac_mapping [OF this assms(4)]
  have "disk (snd (backup_mac E2 i mac2 ?w1)) = Holds (JObj (dict_set i ?r2 (dict_set i ?r1 d)))"
    by (simp add: r2)
  then have "disk (snd (backup_mac E2 i mac2 ?w1)) = Holds (JObj (dict_set i ?r2 d))"
    by (simp only: dict_set_twice)
  moreover have "length (filter (\<lambda>kv. fst kv = i) (dict_set i ?r2 d)) = 1"
    using assms(2) by (rule dict_set_one)
  moreover have "map_of (dict_set i ?r2 d) i = Some ?r2" by (rule map_of_dict_set)
  moreover have "filter (\<lambda>kv. fst kv \<noteq> i) (dict_set i ?r2 d) = filter (\<lambda>kv. fst kv \<noteq> i) d"
    by (rule dict_set_others)
  ultimately show ?thesis by blast
qed

theorem backup_twice_overwrites_witness:
  "distinct (map fst saved) \<and>
   disk (snd (backup_mac (host sh_ok\<lparr>now := ''2024-01-02 07:30:00.000000''\<rparr>) ''eth0''
                ''00:14:22:00:00:07''
                (snd (backup_mac (host sh_ok) ''eth0'' ''ac:de:48:00:00:01''
                        (start\<lparr>disk := Holds (JObj saved)\<rparr>))))) =
     Holds (JObj
       [(''wlan0'', JObj [(''original_mac'', JStr ''11:22:33:44:55:66''),
                          (''timestamp'', JStr ''2023-12-31 08:00:00.000000'')]),
        (''eth0'', JObj [(''original_mac'', JStr ''00:14:22:00:00:07''),
                         (''timestamp'', JStr ''2024-01-02 07:30:00.000000'')])])"
proof -
  let ?w = "start\<lparr>disk := Holds (JObj saved)\<rparr>"
  let ?E2 = "host sh_ok\<lparr>now := ''2024-01-02 07:30:00.000000''\<rparr>"
  have a: "disk ?w = Missing \<and> saved = [] \<or> disk ?w = Holds (JObj saved)" by simp
  have b: "distinct (map fst saved)" by (simp add: saved_def)
  have c: "writing (host sh_ok) = Written" "writing ?E2 = Written" by (simp_all add: host_def)
  from backup_twice_overwrites [OF a b c, of "''eth0''" "''00:14:22:00:00:07''" "''ac:de:48:00:00:01''"]
  have "disk (snd (backup_mac ?E2 ''eth0'' ''00:14:22:00:00:07''
                (snd (backup_mac (host sh_ok) ''eth0'' ''ac:de:48:00:00:01'' ?w)))) =
        Holds (JObj (dict_set ''eth0''
                 (JObj [(''original_mac'', JStr ''00:14:22:00:00:07''),
                        (''timestamp'', JStr (now ?E2))]) saved))"
    by blast
  then have "disk (snd (backup_mac ?E2 ''eth0'' ''00:14:22:00:00:07''
                (snd (backup_mac (host sh_ok) ''eth0'' ''ac:de:48:00:00:01'' ?w)))) =
     Holds (JObj
       [(''wlan0'', JObj [(''original_mac'', JStr ''11:22:33:44:55:66''),
                          (''timestamp'', JStr ''2023-12-31 08:00:00.000000'')]),
        (''eth0'', JObj [(''original_mac'', JStr ''00:14:22:00:00:07''),
                         (''timestamp'', JStr ''2024-01-02 07:30:00.000000'')])])"
    by (simp add: saved_def host_def backup_record_def)
  with b show ?thesis by (simp only: simp_thms)
qed

text \<open>What \<^verbatim>\<open>restore_mac\<close> does, case by case.\<close>

lemma restore_body_raises:
  "restore_body E i w = (Inl e, w') \<Longrightarrow> is_Exception e \<and> w' = w"
  unfolding restore_body_def load_backup_def py_in_def get_item_def is_Exception_def
  by (auto split: backup_file.splits json.splits sum.splits bool.splits option.splits
        prod.splits if_splits)

lemma restore_mac_returns: "fst (restore_mac E i w) = Inr ()"
proof (cases "restore_body E i w")
  case (Pair r w')
  show ?thesis
  proof (cases r)
    case (Inl e)
    with Pair have "is_Exception e" by (auto dest: restore_body_raises)
    with Pair Inl show ?thesis by (simp add: restore_mac_def)
  next
    case (Inr u)
    with Pair show ?thesis by (simp add: restore_mac_def)
  qed
qed

lemma restore_mac_no_file:
  "load_backup (disk w) = Inl e \<Longrightarrow> is_Exception e \<Longrightarrow>
   restore_mac E i w = (Inr (), print (Msg_restore_failed e) w)"
  by (simp add: restore_mac_def restore_body_def)

lemma restore_mac_no_key:
  "disk w = Holds (JObj d) \<Longrightarrow> i \<notin> set (map fst d) \<Longrightarrow>
   restore_mac E i w = (Inr (), print Msg_no_backup w)"
  by (simp add: restore_mac_def restore_body_def load_backup_def py_in_def)

lemma restore_mac_found:
  assumes "disk w = Holds (JObj d)" and "map_of d i = Some (JObj r)"
    and "map_of r ''original_mac'' = Some (JStr addr)"
  shows "restore_mac E i w =
           (Inr (), print (Msg_restored addr) (snd (change_mac E i addr w)))"
proof -
  from assms(2) have "i \<in> set (map fst d)" by (auto dest: map_of_SomeD intro: rev_image_eqI)
  with assms show ?thesis
    by (simp add: restore_mac_def restore_body_def load_backup_def py_in_def get_item_def
          fstr_def split: prod.splits)
qed

text \<open>
  C3, as the code has it. \<^verbatim>\<open>restore_mac\<close> never raises. When the backup file is
  absent, cannot be opened or is not JSON, it prints that the restore failed, with the
  error, and runs no command. When the file holds a mapping without the interface, it
  prints that no backup was found and runs no command. When the mapping has a record
  for the interface with an address under \<^verbatim>\<open>original_mac\<close>, it calls
  \<^verbatim>\<open>change_mac\<close> with exactly that address and prints it.
\<close>

theorem restore_mac_cases:
  "fst (restore_mac E i w) = Inr () \<and>
   (disk w = Missing \<longrightarrow>
      restore_mac E i w = (Inr (), print (Msg_restore_failed FileNotFoundError) w)) \<and>
   (disk w = Unreadable \<longrightarrow>
      restore_mac E i w = (Inr (), print (Msg_restore_failed OSError) w)) \<and>
   (disk w = Garbled \<longrightarrow>
      restore_mac E i w = (Inr (), print (Msg_restore_failed JSONDecodeError) w)) \<and>
   (disk w = Holds (JObj d) \<and> i \<notin> set (map fst d) \<longrightarrow>
      restore_mac E i w = (Inr (), print Msg_no_backup w)) \<and>
   (disk w = Holds (JObj d) \<and> map_of d i = Some (JObj r) \<and>
    map_of r ''original_mac'' = Some (JStr addr) \<longrightarrow>
      restore_mac E i w = (Inr (), print (Msg_restored addr) (snd (change_mac E i addr w))))"
proof (intro conjI impI)
  show "fst (restore_mac E i w) = Inr ()" by (rule restore_mac_returns)
next
  assume "disk w = Missing"
  then show "restore_mac E i w = (Inr (), print (Msg_restore_failed FileNotFoundError) w)"
    by (intro restore_mac_no_file) (simp_all add: load_backup_def is_Exception_def)
next
  assume "disk w = Unreadable"
  then show "restore_mac E i w = (Inr (), print (Msg_restore_failed OSError) w)"
    by (intro restore_mac_no_file) (simp_all add: load_backup_def is_Exception_def)
next
  assume "disk w = Garbled"
  then show "restore_mac E i w = (Inr (), print (Msg_restore_failed JSONDecodeError) w)"
    by (intro restore_mac_no_file) (simp_all add: load_backup_def is_Exception_def)
next
  assume "disk w = Holds (JObj d) \<and> i \<notin> set (map fst d)"
  then show "restore_mac E i w = (Inr (), print Msg_no_backup w)"
    by (intro restore_mac_no_key [of w d]) simp_all
next
  assume "disk w = Holds (JObj d) \<and> map_of d i = Some (JObj r) \<and>
    map_of r ''original_mac'' = Some (JStr addr)"
  then show "restore_mac E i w =
      (Inr (), print (Msg_restored addr) (snd (change_mac E i addr w)))"
    by (intro restore_mac_found [of w d i r]) simp_all
qed

theorem restore_mac_cases_witness:
  "restore_mac (host sh_ok) ''eth0'' start =
     (Inr (), start\<lparr>printed := [Msg_restore_failed FileNotFoundError]\<rparr>) \<and>
   restore_mac (host sh_ok) ''eth0'' (start\<lparr>disk := Unreadable\<rparr>) =
     (Inr (), start\<lparr>printed := [Msg_restore_failed OSError], disk := Unreadable\<rparr>) \<and>
   restore_mac (host sh_ok) ''eth0'' (start\<lparr>disk := Garbled\<rparr>) =
     (Inr (), start\<lparr>printed := [Msg_restore_failed JSONDecodeError], disk := Garbled\<rparr>) \<and>
   restore_mac (host sh_ok) ''eth1'' (start\<lparr>disk := Holds (JObj saved)\<rparr>) =
     (Inr (), start\<lparr>printed := [Msg_no_backup], disk := Holds (JObj saved)\<rparr>) \<and>
   restore_mac (host sh_ok) ''eth0'' (start\<lparr>disk := Holds (JObj saved)\<rparr>) =
     (Inr (), start\<lparr>issued := [''ip link set eth0 down'',
                                  ''ip link set eth0 address 52:54:00:12:34:56'',
                                  ''ip link set eth0 up''],
                       printed := [Msg_restored ''52:54:00:12:34:56''],
                       disk := Holds (JObj saved)\<rparr>)"
proof -
  note c = restore_mac_cases [of "host sh_ok"]
  have 1: "restore_mac (host sh_ok) ''eth0'' start =
     (Inr (), start\<lparr>printed := [Msg_restore_failed FileNotFoundError]\<rparr>)"
    using c [of "''eth0''" start] by (simp add: start_def print_def)
  have 2: "restore_mac (host sh_ok) ''eth0'' (start\<lparr>disk := Unreadable\<rparr>) =
     (Inr (), start\<lparr>printed := [Msg_restore_failed OSError], disk := Unreadable\<rparr>)"
    using c [of "''eth0''" "start\<lparr>disk := Unreadable\<rparr>"] by (simp add: start_def print_def)
  have 3: "restore_mac (host sh_ok) ''eth0'' (start\<lparr>disk := Garbled\<rparr>) =
     (Inr (), start\<lparr>printed := [Msg_restore_failed JSONDecodeError], disk := Garbled\<rparr>)"
    using c [of "''eth0''" "start\<lparr>disk := Garbled\<rparr>"] by (simp add: start_def print_def)
  have 4: "restore_mac (host sh_ok) ''eth1'' (start\<lparr>disk := Holds (JObj saved)\<rparr>) =
     (Inr (), start\<lparr>printed := [Msg_no_backup], disk := Holds (JObj saved)\<rparr>)"
    using c [of "''eth1''" "start\<lparr>disk := Holds (JObj saved)\<rparr>" saved]
    by (simp add: start_def print_def saved_def)
  have m: "snd (change_mac (host sh_ok) ''eth0'' ''52:54:00:12:34:56''
                  (start\<lparr>disk := Holds (JObj saved)\<rparr>)) =
           start\<lparr>issued := [''ip link set eth0 down'',
                             ''ip link set eth0 address 52:54:00:12:34:56'',
                             ''ip link set eth0 up''],
                  disk := Holds (JObj saved)\<rparr>"
    by code_simp
  have 5: "restore_mac (host sh_ok) ''eth0'' (start\<lparr>disk := Holds (JObj saved)\<rparr>) =
     (Inr (), start\<lparr>issued := [''ip link set eth0 down'',
                                  ''ip link set eth0 address 52:54:00:12:34:56'',
                                  ''ip link set eth0 up''],
                       printed := [Msg_restored ''52:54:00:12:34:56''],
                       disk := Holds (JObj saved)\<rparr>)"
    using c [of "''eth0''" "start\<lparr>disk := Holds (JObj saved)\<rparr>" saved
                "[(''original_mac'', JStr ''52:54:00:12:34:56''),
                  (''timestamp'', JStr ''2023-12-31 09:00:00.000000'')]" "''52:54:00:12:34:56''"]
    by (simp add: m) (simp add: start_def print_def saved_def backup_record_def)
  from 1 2 3 4 5 show ?thesis by (simp only: simp_thms)
qed

text \<open>
  C3, as the claim states it, fails where there is no backup file: \<^verbatim>\<open>restore_mac\<close>
  prints that the restore failed (with \<^verbatim>\<open>FileNotFoundError\<close>), not that no backup was
  found.
\<close>

theorem restore_without_file_counterexample:
  "restore_mac (host sh_ok) ''eth0'' start =
     (Inr (), start\<lparr>printed := [Msg_restore_failed FileNotFoundError]\<rparr>) \<and>
   Msg_no_backup \<notin> set (printed (snd (restore_mac (host sh_ok) ''eth0'' start)))"
  by code_simp

text \<open>
  C5. Let the backup file be absent or hold a mapping, and let the write succeed. After
  \<^verbatim>\<open>backup_mac(interface, mac)\<close>, \<^verbatim>\<open>restore_mac(interface)\<close> is a call of
  \<^verbatim>\<open>change_mac\<close> with exactly \<open>mac\<close>, followed by the message that \<open>mac\<close> was
  restored: the commands it starts are the first of the three commands for \<open>mac\<close> (all
  three unless a call raises). The witness is the claim's own case, \<^verbatim>\<open>eth0\<close> and
  \<^verbatim>\<open>aa:bb:cc:dd:ee:ff\<close>.
\<close>

theorem backup_restore_roundtrip:
  assumes "disk w = Missing \<or> (\<exists>d. disk w = Holds (JObj d))" and "writing E = Written"
  shows "restore_mac E i (snd (backup_mac E i mac w)) =
           (Inr (), print (Msg_restored mac)
                      (snd (change_mac E i mac (snd (backup_mac E i mac w))))) \<and>
         (\<exists>k. 1 \<le> k \<and> k \<le> 3 \<and>
            issued (snd (restore_mac E i (snd (backup_mac E i mac w)))) =
              issued w @ take k (change_cmds (is_linux E) i mac))"
proof -
  let ?w1 = "snd (backup_mac E i mac w)"
  from assms(1) obtain d where d: "disk w = Missing \<and> d = [] \<or> disk w = Holds (JObj d)"
    by auto
  let ?d' = "dict_set i (backup_record mac (now E)) d"
  from backup_mac_mapping [OF d assms(2)]
  have w1: "disk ?w1 = Holds (JObj ?d')" "issued ?w1 = issued w" by simp_all
  have "map_of ?d' i = Some (JObj [(''original_mac'', JStr mac), (''timestamp'', JStr (now E))])"
    by (simp add: map_of_dict_set backup_record_def)
  moreover have "map_of [(''original_mac'', JStr mac), (''timestamp'', JStr (now E))] ''original_mac'' =
      Some (JStr mac)" by simp
  ultimately have r: "restore_mac E i ?w1 =
      (Inr (), print (Msg_restored mac) (snd (change_mac E i mac ?w1)))"
    using w1(1) by (intro restore_mac_found)
  from change_mac_issued [of E i mac ?w1] obtain k where
    "1 \<le> k" "k \<le> 3"
    "issued (snd (change_mac E i mac ?w1)) = issued ?w1 @ take k (change_cmds (is_linux E) i mac)"
    by blast
  with r w1(2) show ?thesis by auto
qed

theorem backup_restore_roundtrip_witness:
  "disk start = Missing \<and> writing (host sh_ok) = Written \<and>
   restore_mac (host sh_ok) ''eth0'' (snd (backup_mac (host sh_ok) ''eth0'' ''aa:bb:cc:dd:ee:ff'' start)) =
     (Inr (),
      \<lparr>issued = [''ip link set eth0 down'', ''ip link set eth0 address aa:bb:cc:dd:ee:ff'',
                 ''ip link set eth0 up''],
       printed = [Msg_backed_up, Msg_restored ''aa:bb:cc:dd:ee:ff''],
       disk = Holds (JObj [(''eth0'', backup_record ''aa:bb:cc:dd:ee:ff''
                                         ''2024-01-01 12:00:00.000000'')]),
       drawn = 0, naps = 0\<rparr>)"
proof -
  have a: "disk start = Missing \<or> (\<exists>d. disk start = Holds (JObj d))" by (simp add: start_def)
  have b: "writing (host sh_ok) = Written" by (simp add: host_def)
  have m: "print (Msg_restored ''aa:bb:cc:dd:ee:ff'')
             (snd (change_mac (host sh_ok) ''eth0'' ''aa:bb:cc:dd:ee:ff''
                (snd (backup_mac (host sh_ok) ''eth0'' ''aa:bb:cc:dd:ee:ff'' start)))) =
      \<lparr>issued = [''ip link set eth0 down'', ''ip link set eth0 address aa:bb:cc:dd:ee:ff'',
                 ''ip link set eth0 up''],
       printed = [Msg_backed_up, Msg_restored ''aa:bb:cc:dd:ee:ff''],
       disk = Holds (JObj [(''eth0'', backup_record ''aa:bb:cc:dd:ee:ff''
                                         ''2024-01-01 12:00:00.000000'')]),
       drawn = 0, naps = 0\<rparr>"
    by code_simp
  from backup_restore_roundtrip [OF a b, of "''eth0''" "''aa:bb:cc:dd:ee:ff''"]
  have "restore_mac (host sh_ok) ''eth0''
          (snd (backup_mac (host sh_ok) ''eth0'' ''aa:bb:cc:dd:ee:ff'' start)) =
        (Inr (), print (Msg_restored ''aa:bb:cc:dd:ee:ff'')
             (snd (change_mac (host sh_ok) ''eth0'' ''aa:bb:cc:dd:ee:ff''
                (snd (backup_mac (host sh_ok) ''eth0'' ''aa:bb:cc:dd:ee:ff'' start)))))"
    by (rule conjunct1)
  then have "restore_mac (host sh_ok) ''eth0''
          (snd (backup_mac (host sh_ok) ''eth0'' ''aa:bb:cc:dd:ee:ff'' start)) =
     (Inr (),
      \<lparr>issued = [''ip link set eth0 down'', ''ip link set eth0 address aa:bb:cc:dd:ee:ff'',
                 ''ip link set eth0 up''],
       printed = [Msg_backed_up, Msg_restored ''aa:bb:cc:dd:ee:ff''],
       disk = Holds (JObj [(''eth0'', backup_record ''aa:bb:cc:dd:ee:ff''
                                         ''2024-01-01 12:00:00.000000'')]),
       drawn = 0, naps = 0\<rparr>)"
    by (simp only: m)
  moreover have "disk start = Missing" by (simp add: start_def)
  ultimately show ?thesis using b by (simp only: simp_thms)
qed

section \<open>Choosing an address that differs\<close>

lemma regenerate_result:
  assumes "regenerate E current mac w = Some r"
  shows "py_lower (fst r) \<noteq> py_lower current"
proof (rule regenerate.raw_induct
         [where P = "\<lambda>E current mac w r. py_lower (fst r) \<noteq> py_lower current", OF _ assms])
  fix f E' current' mac' w' r'
  assume IH: "\<And>E current mac w r. f E current mac w = Some r \<Longrightarrow>
                 py_lower (fst r) \<noteq> py_lower current"
    and body: "(if py_lower mac' = py_lower current'
                then f E' current' (fst (next_mac E' w')) (snd (next_mac E' w'))
                else Some (mac', w')) = Some r'"
  show "py_lower (fst r') \<noteq> py_lower current'"
  proof (cases "py_lower mac' = py_lower current'")
    case True
    with body have "f E' current' (fst (next_mac E' w')) (snd (next_mac E' w')) = Some r'"
      by simp
    then show ?thesis by (rule IH)
  next
    case False
    with body show ?thesis by auto
  qed
qed

lemma regenerate_ends:
  "drawn w \<le> n \<Longrightarrow> py_lower (random_mac (dice E n)) \<noteq> py_lower current \<Longrightarrow>
   \<exists>r. regenerate E current mac w = Some r"
proof (induction "n - drawn w" arbitrary: w mac)
  case 0
  then have n: "drawn w = n" by simp
  show ?case
  proof (cases "py_lower mac = py_lower current")
    case False
    then show ?thesis by (subst regenerate.simps) simp
  next
    case True
    have "regenerate E current (fst (next_mac E w)) (snd (next_mac E w)) =
            Some (fst (next_mac E w), snd (next_mac E w))"
      using 0(3) n by (subst regenerate.simps) (simp add: next_mac_def)
    with True show ?thesis by (subst regenerate.simps) simp
  qed
next
  case (Suc k)
  show ?case
  proof (cases "py_lower mac = py_lower current")
    case False
    then show ?thesis by (subst regenerate.simps) simp
  next
    case True
    from Suc(2,3) have "k = n - drawn (snd (next_mac E w))" "drawn (snd (next_mac E w)) \<le> n"
      by (simp_all add: next_mac_def)
    from Suc(1) [OF this Suc(4)]
    obtain r where "regenerate E current (fst (next_mac E w)) (snd (next_mac E w)) = Some r" ..
    with True show ?thesis by (subst regenerate.simps) simp
  qed
qed

text \<open>
  The program compares \<^verbatim>\<open>a.lower() == b.lower()\<close>; that is equality without regard
  to case.
\<close>

lemma lower_of_capital:
  "x \<in> set ''ABCDEFGHIJKLMNOPQRSTUVWXYZ'' \<Longrightarrow>
   (lower_char x, x) \<in> set (zip ''abcdefghijklmnopqrstuvwxyz'' ''ABCDEFGHIJKLMNOPQRSTUVWXYZ'')"
  by (simp, elim disjE) (simp_all add: lower_char_def)

lemma lower_of_other: "x \<notin> set ''ABCDEFGHIJKLMNOPQRSTUVWXYZ'' \<Longrightarrow> lower_char x = x"
  by (simp add: lower_char_def)

lemma capital_of_small:
  "(l, x) \<in> set (zip ''abcdefghijklmnopqrstuvwxyz'' ''ABCDEFGHIJKLMNOPQRSTUVWXYZ'') \<Longrightarrow>
   lower_char x = l \<and> lower_char l = l \<and> x \<in> set ''ABCDEFGHIJKLMNOPQRSTUVWXYZ''"
  by (simp, elim disjE) (simp_all add: lower_char_def)

lemma one_capital:
  "(l, x) \<in> set (zip ''abcdefghijklmnopqrstuvwxyz'' ''ABCDEFGHIJKLMNOPQRSTUVWXYZ'') \<Longrightarrow>
   (l, y) \<in> set (zip ''abcdefghijklmnopqrstuvwxyz'' ''ABCDEFGHIJKLMNOPQRSTUVWXYZ'') \<Longrightarrow> x = y"
  by (simp, elim disjE) simp_all

lemma same_letter_lower: "same_letter x y \<Longrightarrow> lower_char x = lower_char y"
proof -
  assume "same_letter x y"
  then consider "x = y"
    | "(x, y) \<in> set (zip ''abcdefghijklmnopqrstuvwxyz'' ''ABCDEFGHIJKLMNOPQRSTUVWXYZ'')"
    | "(y, x) \<in> set (zip ''abcdefghijklmnopqrstuvwxyz'' ''ABCDEFGHIJKLMNOPQRSTUVWXYZ'')"
    unfolding same_letter_def by blast
  then show ?thesis
  proof cases
    case 1
    then show ?thesis by simp
  next
    case 2
    from capital_of_small [OF this] show ?thesis by simp
  next
    case 3
    from capital_of_small [OF this] show ?thesis by simp
  qed
qed

lemma lower_same_letter:
  assumes e: "lower_char x = lower_char y"
  shows "same_letter x y"
proof -
  let ?U = "''ABCDEFGHIJKLMNOPQRSTUVWXYZ''"
  show ?thesis
  proof (cases "x \<in> set ?U")
    case x: True
    show ?thesis
    proof (cases "y \<in> set ?U")
      case True
      have "x = y"
        using lower_of_capital [OF x] lower_of_capital [OF True]
        by (simp only: e) (rule one_capital)
      then show ?thesis unfolding same_letter_def by (rule disjI1)
    next
      case False
      then have "lower_char y = y" by (rule lower_of_other)
      with lower_of_capital [OF x] e
      have "(y, x) \<in> set (zip ''abcdefghijklmnopqrstuvwxyz'' ?U)" by (simp only:)
      then show ?thesis unfolding same_letter_def by (intro disjI2)
    qed
  next
    case x: False
    then have lx: "lower_char x = x" by (rule lower_of_other)
    show ?thesis
    proof (cases "y \<in> set ?U")
      case True
      with lower_of_capital [OF True] e lx
      have "(x, y) \<in> set (zip ''abcdefghijklmnopqrstuvwxyz'' ?U)" by (simp only:)
      then show ?thesis unfolding same_letter_def by (intro disjI2 disjI1)
    next
      case False
      then have "lower_char y = y" by (rule lower_of_other)
      with lx e have "x = y" by (simp only:)
      then show ?thesis unfolding same_letter_def by (rule disjI1)
    qed
  qed
qed

lemma same_letter_iff: "same_letter x y \<longleftrightarrow> lower_char x = lower_char y"
  by (blast intro: same_letter_lower lower_same_letter)

lemma issued_sleep [simp]: "issued (snd (sleep E n w)) = issued w"
  by (simp add: sleep_def)

lemma printed_sleep [simp]: "printed (snd (sleep E n w)) = printed w"
  by (simp add: sleep_def)

lemma issued_get_mac:
  "issued (snd (get_mac E i w)) =
     issued w @ [if is_linux E then ''ip link show '' @ i else ''ifconfig '' @ i]"
  by (simp add: get_mac_def run_command_def split: proc_result.splits)

lemma printed_call_each [simp]: "printed (snd (call_each E cmds w)) = printed w"
  by (induction cmds arbitrary: w) (auto simp: subprocess_call_def split: proc_result.splits)

lemma printed_change_mac [simp]: "printed (snd (change_mac E i m w)) = printed w"
  by (simp add: change_mac_def)

lemma change_mac_issued_all:
  "\<exists>k. 1 \<le> k \<and> k \<le> 3 \<and> (fst (change_mac E i m w) \<longrightarrow> k = 3) \<and>
       issued (snd (change_mac E i m w)) = issued w @ take k (change_cmds (is_linux E) i m)"
proof -
  have "change_cmds (is_linux E) i m \<noteq> []" "length (change_cmds (is_linux E) i m) = 3"
    by (simp_all add: change_cmds_def)
  with call_each_issued [of "change_cmds (is_linux E) i m" E w] show ?thesis
    unfolding change_mac_def by auto
qed

text \<open>
  C6. Let \<open>X\<close> be the current address. The loop that draws again ends only with an
  address that differs from \<open>X\<close> even without regard to case, and it ends as soon as such
  an address is drawn. In the one-shot change of \<^verbatim>\<open>cli\<close> (a given or a random first
  address) and in every pass of \<^verbatim>\<open>rotate_mac\<close> in which an address \<open>X\<close> was read,
  the address \<open>m\<close> chosen differs from \<open>X\<close> without regard to case, and it is the address
  applied: the commands run after the choice are the commands of \<^verbatim>\<open>change_mac\<close> for
  \<open>m\<close>, the first \<open>k\<close> of the three, and all three when no call raises.
\<close>

theorem chosen_address_differs:
  "(regenerate E X mac w = Some (m', w') \<longrightarrow> \<not> same_ignoring_case m' X) \<and>
   (drawn w \<le> j \<and> \<not> same_ignoring_case (random_mac (dice E j)) X \<longrightarrow>
      (\<exists>r. regenerate E X mac w = Some r)) \<and>
   (change_once E a i X w = Some r1 \<longrightarrow>
      (\<exists>m w2 k. choose_new E a X w = Some (m, w2) \<and> \<not> same_ignoring_case m X \<and>
         1 \<le> k \<and> k \<le> 3 \<and> (fst (change_mac E i m w2) \<longrightarrow> k = 3) \<and>
         take (length (issued w2) + k) (issued (snd r1)) =
           issued w2 @ take k (change_cmds (is_linux E) i m))) \<and>
   (rotate_round E i n w = Some r2 \<and> fst (get_mac E i w) = Some X \<longrightarrow>
      (\<exists>m w2 k. fresh_mac E X (snd (get_mac E i w)) = Some (m, w2) \<and>
         \<not> same_ignoring_case m X \<and>
         1 \<le> k \<and> k \<le> 3 \<and> (fst (change_mac E i m w2) \<longrightarrow> k = 3) \<and>
         issued (snd r2) = issued w2 @ take k (change_cmds (is_linux E) i m) \<and>
         printed (snd r2) = printed w2 @ [Msg_rotated m]))"
proof -
  have caseless: "same_ignoring_case u v \<longleftrightarrow> py_lower u = py_lower v" for u v
    unfolding same_ignoring_case_def py_lower_def
  proof (induction u arbitrary: v)
    case Nil
    then show ?case by simp
  next
    case (Cons x u)
    show ?case
    proof (cases v)
      case Nil
      then show ?thesis by simp
    next
      case (Cons y v')
      with Cons.IH [of v'] show ?thesis
        by (simp only: list_all2_Cons map_eq_Cons_conv list.map list.inject same_letter_iff)
    qed
  qed
  have differs: "\<not> same_ignoring_case m' X" if "regenerate E X mac w = Some (m', w')"
    for mac w m' w'
    using regenerate_result [OF that] by (simp add: caseless)
  have ends: "\<exists>r. regenerate E X mac w = Some r"
    if "drawn w \<le> j \<and> \<not> same_ignoring_case (random_mac (dice E j)) X"
    using that by (intro regenerate_ends [of w j]) (simp_all add: caseless)
  have once: "\<exists>m w2 k. choose_new E a X w = Some (m, w2) \<and> \<not> same_ignoring_case m X \<and>
         1 \<le> k \<and> k \<le> 3 \<and> (fst (change_mac E i m w2) \<longrightarrow> k = 3) \<and>
         take (length (issued w2) + k) (issued (snd r1)) =
           issued w2 @ take k (change_cmds (is_linux E) i m)"
    if r1: "change_once E a i X w = Some r1"
  proof -
    from r1 obtain m w2 where c: "choose_new E a X w = Some (m, w2)"
      by (auto simp: change_once_def split: option.splits)
    then have "regenerate E X (fst (first_choice E a w)) (snd (first_choice E a w)) = Some (m, w2)"
      by (simp add: choose_new_def split: prod.splits)
    then have d: "\<not> same_ignoring_case m X" by (rule differs)
    from change_mac_issued_all [of E i m w2] obtain k where
      k: "1 \<le> k" "k \<le> 3" "fst (change_mac E i m w2) \<longrightarrow> k = 3"
         "issued (snd (change_mac E i m w2)) = issued w2 @ take k (change_cmds (is_linux E) i m)"
      by blast
    have l: "length (take k (change_cmds (is_linux E) i m)) = k"
      using k(2) by (simp add: change_cmds_def)
    have "\<exists>rest. issued (snd r1) = issued (snd (change_mac E i m w2)) @ rest"
    proof (cases "change_mac E i m w2")
      case (Pair ok w3)
      show ?thesis
      proof (cases ok)
        case True
        obtain u w4 where g: "get_mac E i w3 = (u, w4)" by (cases "get_mac E i w3") auto
        then have "issued w4 =
            issued w3 @ [if is_linux E then ''ip link show '' @ i else ''ifconfig '' @ i]"
          using issued_get_mac [of E i w3] by simp
        moreover have "issued (snd r1) = issued w4"
          using r1 c Pair True g by (auto simp: change_once_def split: option.splits)
        ultimately show ?thesis using Pair by simp
      next
        case False
        have "issued (snd r1) = issued w3"
          using r1 c Pair False by (auto simp: change_once_def)
        then show ?thesis using Pair by simp
      qed
    qed
    then obtain rest where
      "issued (snd r1) = (issued w2 @ take k (change_cmds (is_linux E) i m)) @ rest"
      using k(4) by auto
    then have "take (length (issued w2) + k) (issued (snd r1)) =
        issued w2 @ take k (change_cmds (is_linux E) i m)"
      using l by simp
    with c d k(1,2,3) show ?thesis by blast
  qed
  have round: "\<exists>m w2 k. fresh_mac E X (snd (get_mac E i w)) = Some (m, w2) \<and>
         \<not> same_ignoring_case m X \<and>
         1 \<le> k \<and> k \<le> 3 \<and> (fst (change_mac E i m w2) \<longrightarrow> k = 3) \<and>
         issued (snd r2) = issued w2 @ take k (change_cmds (is_linux E) i m) \<and>
         printed (snd r2) = printed w2 @ [Msg_rotated m]"
    if r2: "rotate_round E i n w = Some r2 \<and> fst (get_mac E i w) = Some X"
  proof -
    obtain w1 where g: "get_mac E i w = (Some X, w1)"
      using r2 by (cases "get_mac E i w") auto
    with r2 obtain m w2 where f: "fresh_mac E X w1 = Some (m, w2)"
      by (auto simp: rotate_round_def split: option.splits)
    then have "regenerate E X (fst (next_mac E w1)) (snd (next_mac E w1)) = Some (m, w2)"
      by (simp add: fresh_mac_def split: prod.splits)
    then have d: "\<not> same_ignoring_case m X" by (rule differs)
    from change_mac_issued_all [of E i m w2] obtain k where
      k: "1 \<le> k" "k \<le> 3" "fst (change_mac E i m w2) \<longrightarrow> k = 3"
         "issued (snd (change_mac E i m w2)) = issued w2 @ take k (change_cmds (is_linux E) i m)"
      by blast
    from r2 g f have r: "r2 = sleep E n (print (Msg_rotated m) (snd (change_mac E i m w2)))"
      by (simp add: rotate_round_def split: prod.splits)
    have "issued (snd r2) = issued w2 @ take k (change_cmds (is_linux E) i m)"
      using k(4) by (simp add: r)
    moreover have "printed (snd r2) = printed w2 @ [Msg_rotated m]"
      by (simp add: r print_def)
    ultimately show ?thesis using g f d k(1,2,3) by auto
  qed
  show ?thesis
    using differs [of mac w m' w'] ends once round by (intro conjI impI)
qed

theorem chosen_address_differs_witness:
  "same_ignoring_case ''ac:de:48:00:00:0a'' ''AC:DE:48:00:00:0A'' \<and>
   random_mac (dice host_ac 0) = ''AC:DE:48:00:00:0a'' \<and>
   same_ignoring_case ''AC:DE:48:00:00:0a'' ''AC:DE:48:00:00:0A'' \<and>
   regenerate host_ac ''AC:DE:48:00:00:0A'' ''ac:de:48:00:00:0a'' start =
     Some (''AC:DE:48:00:00:0b'', start\<lparr>drawn := 2\<rparr>) \<and>
   \<not> same_ignoring_case ''AC:DE:48:00:00:0b'' ''AC:DE:48:00:00:0A'' \<and>
   change_once host_ac (manual ''ac:de:48:00:00:0a'') ''eth0'' ''AC:DE:48:00:00:0A'' start =
     Some (Inr (),
           start\<lparr>issued := [''ip link set eth0 down'',
                              ''ip link set eth0 address AC:DE:48:00:00:0b'',
                              ''ip link set eth0 up'', ''ip link show eth0''],
                  printed := [Msg_changed ''AC:DE:48:00:00:0A'' ''AC:DE:48:00:00:0A'' ''Private''],
                  drawn := 2\<rparr>) \<and>
   fst (get_mac host_ac ''eth0'' start) = Some ''AC:DE:48:00:00:0A'' \<and>
   rotate_round host_ac ''eth0'' 5 start =
     Some (Inr (),
           start\<lparr>issued := [''ip link show eth0'', ''ip link set eth0 down'',
                              ''ip link set eth0 address AC:DE:48:00:00:0b'',
                              ''ip link set eth0 up''],
                  printed := [Msg_rotated ''AC:DE:48:00:00:0b''],
                  drawn := 2, naps := 1\<rparr>)"
proof -
  have s1: "same_ignoring_case ''ac:de:48:00:00:0a'' ''AC:DE:48:00:00:0A''" by code_simp
  have d0: "random_mac (dice host_ac 0) = ''AC:DE:48:00:00:0a''" by code_simp
  have s2: "same_ignoring_case ''AC:DE:48:00:00:0a'' ''AC:DE:48:00:00:0A''" by code_simp
  have r: "regenerate host_ac ''AC:DE:48:00:00:0A'' ''ac:de:48:00:00:0a'' start =
             Some (''AC:DE:48:00:00:0b'', start\<lparr>drawn := 2\<rparr>)"
    by code_simp
  have c: "change_once host_ac (manual ''ac:de:48:00:00:0a'') ''eth0'' ''AC:DE:48:00:00:0A'' start =
     Some (Inr (),
           start\<lparr>issued := [''ip link set eth0 down'',
                              ''ip link set eth0 address AC:DE:48:00:00:0b'',
                              ''ip link set eth0 up'', ''ip link show eth0''],
                  printed := [Msg_changed ''AC:DE:48:00:00:0A'' ''AC:DE:48:00:00:0A'' ''Private''],
                  drawn := 2\<rparr>)"
    by code_simp
  have g: "fst (get_mac host_ac ''eth0'' start) = Some ''AC:DE:48:00:00:0A''" by code_simp
  have t: "rotate_round host_ac ''eth0'' 5 start =
     Some (Inr (),
           start\<lparr>issued := [''ip link show eth0'', ''ip link set eth0 down'',
                              ''ip link set eth0 address AC:DE:48:00:00:0b'',
                              ''ip link set eth0 up''],
                  printed := [Msg_rotated ''AC:DE:48:00:00:0b''],
                  drawn := 2, naps := 1\<rparr>)"
    by code_simp
  from chosen_address_differs
         [of host_ac "''AC:DE:48:00:00:0A''" "''ac:de:48:00:00:0a''" start
             "''AC:DE:48:00:00:0b''" "start\<lparr>drawn := 2\<rparr>"] r
  have n: "\<not> same_ignoring_case ''AC:DE:48:00:00:0b'' ''AC:DE:48:00:00:0A''" by blast
  from s1 d0 s2 r n c g t show ?thesis by (simp only: simp_thms)
qed

section \<open>Rotation\<close>

text \<open>
  How the loop of \<^verbatim>\<open>rotate_mac\<close> can end: with \<^verbatim>\<open>AttributeError\<close>, with
  \<^verbatim>\<open>ValueError\<close>, or with what a sleep raises. \<^verbatim>\<open>rotate_mac\<close> returns only when a
  sleep was interrupted.
\<close>

lemma rotate_round_raises:
  "rotate_round E i n w = Some (Inl e, w') \<Longrightarrow>
   e = AttributeError \<or> e = ValueError \<or> (\<exists>k. nap E k = Some e)"
  by (auto simp: rotate_round_def sleep_def split: prod.splits option.splits if_splits)

lemma rotate_loop_ends:
  assumes "rotate_loop E i n w = Some r"
  shows "fst r = AttributeError \<or> fst r = ValueError \<or> (\<exists>k. nap E k = Some (fst r))"
proof (rule rotate_loop.raw_induct
         [where P = "\<lambda>E i n w r. fst r = AttributeError \<or> fst r = ValueError \<or>
                                   (\<exists>k. nap E k = Some (fst r))", OF _ assms])
  fix f E' i' n' w' r'
  assume IH: "\<And>E i n w r. f E i n w = Some r \<Longrightarrow>
                 fst r = AttributeError \<or> fst r = ValueError \<or> (\<exists>k. nap E k = Some (fst r))"
    and body: "(case rotate_round E' i' n' w' of
                  None \<Rightarrow> None
                | Some (Inl e, w'') \<Rightarrow> Some (e, w'')
                | Some (Inr u, w'') \<Rightarrow> f E' i' n' w'') = Some r'"
  from body show "fst r' = AttributeError \<or> fst r' = ValueError \<or> (\<exists>k. nap E' k = Some (fst r'))"
    by (auto split: prod.splits option.splits sum.splits dest: IH rotate_round_raises)
qed

lemma rotate_mac_returns_on_interrupt:
  assumes "rotate_mac E i n w = Some (Inr u, w')"
  shows "\<exists>k. nap E k = Some KeyboardInterrupt"
proof -
  from assms obtain w'' where "rotate_loop E i n (print (Msg_rotating n i) w) =
      Some (KeyboardInterrupt, w'')"
    by (auto simp: rotate_mac_def split: option.splits prod.splits if_splits)
  from rotate_loop_ends [OF this] show ?thesis by simp
qed

text \<open>
  C2. The claim says that nothing but an interrupt ends the loop. On the host
  \<open>sh_gone\<close>, where nobody interrupts, \<^verbatim>\<open>ip link show eth0\<close> exits with status 1 in
  the first round, \<^verbatim>\<open>get_mac\<close> returns \<^verbatim>\<open>None\<close>, and the loop ends with an
  \<^verbatim>\<open>AttributeError\<close> that leaves \<^verbatim>\<open>rotate_mac\<close>.
\<close>

theorem rotate_mac_ends_without_interrupt:
  "rotate_mac (host sh_gone) ''eth0'' 5 start =
     Some (Inl AttributeError,
           start\<lparr>issued := [''ip link show eth0''], printed := [Msg_rotating 5 ''eth0''],
                  drawn := 1\<rparr>) \<and>
   nap (host sh_gone) = (\<lambda>n. None) \<and>
   fst (get_mac (host sh_gone) ''eth0'' (print (Msg_rotating 5 ''eth0'') start)) = None"
  by (simp add: host_def) code_simp

end
